theory Spec2Isabelle
  imports Complex_Main "HOL-Library.Product_Lexorder"
begin

section \<open>Data model\<close>

text \<open>
  The program is a script over pandas frames. A frame with a date index and one float
  column is a list of rows in row order; a float cell is \<open>real option\<close>, where
  \<open>None\<close> is NaN (pandas' missing marker). Finite float arithmetic is read as
  arithmetic on the reals; a quotient by zero (infinite or NaN in IEEE arithmetic) has
  no counterpart here, and no statement below relies on one.

  A timestamp of the index is a calendar date (year, month, day): the statistics
  source delivers dates without a time of day. Dates are ordered lexicographically,
  which is the chronological order.
\<close>

type_synonym date = "int \<times> nat \<times> nat"

type_synonym cell = "real option"

type_synonym series = "(date \<times> cell) list"

datatype error = FetchFailed | ParseError | ValueError

definition is_leap :: "int \<Rightarrow> bool" where
  "is_leap y = ((y mod 4 = 0 \<and> y mod 100 \<noteq> 0) \<or> y mod 400 = 0)"

definition days_in_month :: "int \<Rightarrow> nat \<Rightarrow> nat" where
  "days_in_month y m =
     (if m = 2 then (if is_leap y then 29 else 28)
      else if m = 4 \<or> m = 6 \<or> m = 9 \<or> m = 11 then 30 else 31)"

definition valid_date :: "date \<Rightarrow> bool" where
  "valid_date dt = (case dt of (y, m, d) \<Rightarrow>
     1 \<le> m \<and> m \<le> 12 \<and> 1 \<le> d \<and> d \<le> days_in_month y m)"

text \<open>The calendar month of a date, counted in months: the key of a monthly bin.\<close>

definition month_ix :: "date \<Rightarrow> int" where
  "month_ix dt = (case dt of (y, m, d) \<Rightarrow> y * 12 + int m - 1)"

text \<open>The label pandas gives the bin of a month under the rule \<^verbatim>\<open>"M"\<close>: its last day.\<close>

definition month_end :: "int \<Rightarrow> date" where
  "month_end k = (k div 12, nat (k mod 12) + 1, days_in_month (k div 12) (nat (k mod 12) + 1))"

definition is_month_end :: "date \<Rightarrow> bool" where
  "is_month_end dt = (case dt of (y, m, d) \<Rightarrow> 1 \<le> m \<and> m \<le> 12 \<and> d = days_in_month y m)"

definition is_month_start :: "date \<Rightarrow> bool" where
  "is_month_start dt = (case dt of (y, m, d) \<Rightarrow> d = 1)"

section \<open>Series Fetcher\<close>

text \<open>
  \<^verbatim>\<open>fetch_fred\<close> performs one HTTP GET. The remote source is a function from the
  request (series identifier, start date) to a response: a failure (transport error,
  non-2xx status raised by \<^verbatim>\<open>raise_for_status\<close>, a body that is not JSON), or a JSON
  object whose key \<^verbatim>\<open>observations\<close> may be absent (\<^verbatim>\<open>js.get("observations", [])\<close>).
  An observation is given with its date already read as (year, month, day) and its
  value already read by \<^verbatim>\<open>pd.to_numeric(errors="coerce")\<close>: \<open>None\<close> for a
  non-numeric string such as the source's \<^verbatim>\<open>"."\<close>. \<^verbatim>\<open>pd.to_datetime\<close> raises on a
  string that is no calendar date. \<^verbatim>\<open>sort_index\<close> orders the rows by date; rows with
  equal dates keep their order here.
\<close>

datatype response = Http_failure | Body "(date \<times> cell) list option"

type_synonym web = "string \<Rightarrow> string \<Rightarrow> response"

definition fetch_fred :: "web \<Rightarrow> string \<Rightarrow> string \<Rightarrow> error + series" where
  "fetch_fred www series_id start =
     (case www series_id start of
        Http_failure \<Rightarrow> Inl FetchFailed
      | Body js \<Rightarrow>
          (let obs = (case js of None \<Rightarrow> [] | Some l \<Rightarrow> l) in
           if obs = [] then Inr []
           else if \<not> list_all valid_date (map fst obs) then Inl ParseError
           else Inr (sort_key fst obs)))"

section \<open>Frequency Normalizer\<close>

text \<open>
  \<^verbatim>\<open>df.resample("M")\<close> orders the rows by date (a stable sort), makes one bin per
  calendar month from the month of the earliest date to the month of the latest one,
  months without rows included, and labels each bin with its month end.
  \<^verbatim>\<open>.last()\<close> takes the last value of a bin that is not NaN, and NaN when there is none;
  \<^verbatim>\<open>.mean()\<close> takes the mean of the values that are not NaN, and NaN when there is none.
\<close>

definition month_bins :: "series \<Rightarrow> int list" where
  "month_bins df =
     (if df = [] then []
      else [Min (set (map (month_ix \<circ> fst) df)) .. Max (set (map (month_ix \<circ> fst) df))])"

definition in_month :: "int \<Rightarrow> series \<Rightarrow> cell list" where
  "in_month k df = map snd (filter (\<lambda>r. month_ix (fst r) = k) df)"

definition resample :: "(cell list \<Rightarrow> cell) \<Rightarrow> series \<Rightarrow> series" where
  "resample agg df =
     (let s = sort_key fst df in map (\<lambda>k. (month_end k, agg (in_month k s))) (month_bins s))"

definition present :: "cell list \<Rightarrow> real list" where
  "present vs = concat (map (\<lambda>v. case v of None \<Rightarrow> [] | Some x \<Rightarrow> [x]) vs)"

definition agg_last :: "cell list \<Rightarrow> cell" where
  "agg_last vs = (case present vs of [] \<Rightarrow> None | x # xs \<Rightarrow> Some (last (x # xs)))"

definition agg_mean :: "cell list \<Rightarrow> cell" where
  "agg_mean vs = (case present vs of [] \<Rightarrow> None
                  | x # xs \<Rightarrow> Some (sum_list (x # xs) / real (length (x # xs))))"

definition monthlyize :: "series \<Rightarrow> string \<Rightarrow> series" where
  "monthlyize df how =
     (if df = [] then df
      else if how = ''mean'' then resample agg_mean df
      else resample agg_last df)"

section \<open>Derived Metric Calculator\<close>

text \<open>
  \<^verbatim>\<open>pd.infer_freq\<close> raises \<^verbatim>\<open>ValueError\<close> on fewer than three dates. It answers
  \<^verbatim>\<open>"M"\<close> when every step from one date to the next is one calendar month and every
  date is the last day of its month, \<^verbatim>\<open>"MS"\<close> when every step is one month and every
  date is the first day of its month. \<open>Freq_other\<close> stands for every other answer
  (\<^verbatim>\<open>None\<close>, \<^verbatim>\<open>"D"\<close>, \<^verbatim>\<open>"2M"\<close>, \<^verbatim>\<open>"QS-JAN"\<close>, ...): the program only asks whether the
  answer is one of \<^verbatim>\<open>"M"\<close> and \<^verbatim>\<open>"MS"\<close>.
\<close>

datatype freq = Freq_M | Freq_MS | Freq_other

fun month_steps :: "int list \<Rightarrow> bool" where
  "month_steps (a # b # ks) = (b = a + 1 \<and> month_steps (b # ks))"
| "month_steps ks = True"

definition infer_freq :: "date list \<Rightarrow> error + freq" where
  "infer_freq ix =
     (if length ix < 3 then Inl ValueError
      else if \<not> month_steps (map month_ix ix) then Inr Freq_other
      else if list_all is_month_end ix then Inr Freq_M
      else if list_all is_month_start ix then Inr Freq_MS
      else Inr Freq_other)"

text \<open>
  \<^verbatim>\<open>Series.pct_change(12)\<close> with its default \<^verbatim>\<open>fill_method="pad"\<close>: NaN cells are first
  filled with the last value before them that is not NaN, then the column is divided by
  itself shifted down by 12 rows, and 1 is subtracted. Arithmetic with NaN gives NaN.
\<close>

fun ffill_from :: "cell \<Rightarrow> cell list \<Rightarrow> cell list" where
  "ffill_from prev [] = []"
| "ffill_from prev (None # vs) = prev # ffill_from prev vs"
| "ffill_from prev (Some x # vs) = Some x # ffill_from (Some x) vs"

definition ffill :: "cell list \<Rightarrow> cell list" where
  "ffill vs = ffill_from None vs"

definition shift :: "nat \<Rightarrow> cell list \<Rightarrow> cell list" where
  "shift n vs = replicate (min n (length vs)) None @ take (length vs - n) vs"

fun cell_div :: "cell \<Rightarrow> cell \<Rightarrow> cell" where
  "cell_div (Some a) (Some b) = Some (a / b)"
| "cell_div a b = None"

fun cell_sub :: "cell \<Rightarrow> real \<Rightarrow> cell" where
  "cell_sub (Some a) c = Some (a - c)"
| "cell_sub None c = None"

fun cell_mul :: "cell \<Rightarrow> real \<Rightarrow> cell" where
  "cell_mul (Some a) c = Some (a * c)"
| "cell_mul None c = None"

definition pct_change :: "nat \<Rightarrow> cell list \<Rightarrow> cell list" where
  "pct_change n vs =
     (let data = ffill vs; shifted = shift n data
      in map (\<lambda>(a, b). cell_sub (cell_div a b) 1) (zip data shifted))"

definition cpi_yoy_from_index :: "series \<Rightarrow> error + series" where
  "cpi_yoy_from_index cpi_idx =
     (if cpi_idx = [] then Inr []
      else case infer_freq (map fst cpi_idx) of
        Inl e \<Rightarrow> Inl e
      | Inr f \<Rightarrow>
          (let cpi = (if f \<noteq> Freq_M \<and> f \<noteq> Freq_MS then resample agg_last cpi_idx else cpi_idx)
           in Inr (zip (map fst cpi) (map (\<lambda>v. cell_mul v 100) (pct_change 12 (map snd cpi))))))"

section \<open>Panel Assembler\<close>

text \<open>
  The panel has the date index and the four named float columns of the program.
\<close>

record prow =
  key :: date
  CPI :: cell
  CPI_YoY :: cell
  Unemployment :: cell
  Real10Y :: cell

datatype col = Col_CPI | Col_CPI_YoY | Col_Unemployment | Col_Real10Y

definition columns :: "col list" where
  "columns = [Col_CPI, Col_CPI_YoY, Col_Unemployment, Col_Real10Y]"

fun col_name :: "col \<Rightarrow> string" where
  "col_name Col_CPI = ''CPI''"
| "col_name Col_CPI_YoY = ''CPI_YoY''"
| "col_name Col_Unemployment = ''Unemployment''"
| "col_name Col_Real10Y = ''Real10Y''"

fun cell_of :: "col \<Rightarrow> prow \<Rightarrow> cell" where
  "cell_of Col_CPI r = CPI r"
| "cell_of Col_CPI_YoY r = CPI_YoY r"
| "cell_of Col_Unemployment r = Unemployment r"
| "cell_of Col_Real10Y r = Real10Y r"

fun set_cell :: "col \<Rightarrow> cell \<Rightarrow> prow \<Rightarrow> prow" where
  "set_cell Col_CPI v r = r\<lparr>CPI := v\<rparr>"
| "set_cell Col_CPI_YoY v r = r\<lparr>CPI_YoY := v\<rparr>"
| "set_cell Col_Unemployment v r = r\<lparr>Unemployment := v\<rparr>"
| "set_cell Col_Real10Y v r = r\<lparr>Real10Y := v\<rparr>"

text \<open>
  \<^verbatim>\<open>pd.concat([...], axis=1)\<close> joins the four series on the union of their indexes,
  formed from left to right by \<^verbatim>\<open>Index.union\<close>. The union with an empty index or with
  an equal index is the index itself. Otherwise the union is in ascending order when
  every series has a datetime index, and keeps the order of first appearance when one
  of the four series is empty: an empty frame of the script (the empty frame of
  \<^verbatim>\<open>fetch_fred\<close>, the empty series of \<^verbatim>\<open>cpi_yoy_from_index\<close>) has no datetime
  index. A date that a series does not have gives NaN in its column.

  Four series with the same index are put side by side, row by row, without
  reindexing. Otherwise pandas raises \<^verbatim>\<open>ValueError\<close> when it has to reindex a series
  whose index has a duplicate date; here every duplicate date outside the case of four
  equal indexes is that error. The script only joins series with unique dates.
\<close>

definition lookup :: "series \<Rightarrow> date \<Rightarrow> cell" where
  "lookup s d = (case map_of s d of None \<Rightarrow> None | Some v \<Rightarrow> v)"

definition union2 :: "bool \<Rightarrow> date list \<Rightarrow> date list \<Rightarrow> date list" where
  "union2 srt ix other =
     (if other = [] \<or> ix = other then ix
      else if ix = [] then other
      else if srt then sort (remdups (ix @ other))
      else ix @ filter (\<lambda>k. k \<notin> set ix) other)"

definition union_index :: "series list \<Rightarrow> date list" where
  "union_index ss =
     (case map (map fst) ss of
        [] \<Rightarrow> []
      | ix # rest \<Rightarrow>
          fold (\<lambda>other result. union2 (list_all (\<lambda>s. s \<noteq> []) ss) result other) rest ix)"

definition side_by_side :: "series \<Rightarrow> series \<Rightarrow> series \<Rightarrow> series \<Rightarrow> prow list" where
  "side_by_side a b c d =
     map (\<lambda>(((x, y), z), w). \<lparr>key = fst x, CPI = snd x, CPI_YoY = snd y,
                                Unemployment = snd z, Real10Y = snd w\<rparr>)
         (zip (zip (zip a b) c) d)"

definition concat_cols :: "series \<Rightarrow> series \<Rightarrow> series \<Rightarrow> series \<Rightarrow> error + prow list" where
  "concat_cols a b c d =
     (if map fst a = map fst b \<and> map fst b = map fst c \<and> map fst c = map fst d
      then Inr (side_by_side a b c d)
      else if \<not> (distinct (map fst a) \<and> distinct (map fst b) \<and> distinct (map fst c) \<and> distinct (map fst d))
      then Inl ValueError
      else Inr (map (\<lambda>k. \<lparr>key = k, CPI = lookup a k, CPI_YoY = lookup b k,
                            Unemployment = lookup c k, Real10Y = lookup d k\<rparr>)
                    (union_index [a, b, c, d])))"

text \<open>\<^verbatim>\<open>dropna(how="all")\<close> drops the rows whose cells are all NaN, \<^verbatim>\<open>dropna()\<close> the rows with any NaN cell.\<close>

definition all_missing :: "prow \<Rightarrow> bool" where
  "all_missing r = (CPI r = None \<and> CPI_YoY r = None \<and> Unemployment r = None \<and> Real10Y r = None)"

definition any_missing :: "prow \<Rightarrow> bool" where
  "any_missing r = (CPI r = None \<or> CPI_YoY r = None \<or> Unemployment r = None \<or> Real10Y r = None)"

definition dropna_all :: "prow list \<Rightarrow> prow list" where
  "dropna_all p = filter (\<lambda>r. \<not> all_missing r) p"

definition dropna_any :: "prow list \<Rightarrow> prow list" where
  "dropna_any p = filter (\<lambda>r. \<not> any_missing r) p"

definition build_panel :: "series \<Rightarrow> series \<Rightarrow> series \<Rightarrow> series \<Rightarrow> error + prow list" where
  "build_panel cpi yoy unrate real10 =
     (case concat_cols cpi yoy unrate real10 of
        Inl e \<Rightarrow> Inl e
      | Inr joined \<Rightarrow> Inr (dropna_all joined))"

section \<open>Display Transform\<close>

text \<open>
  \<^verbatim>\<open>rolling(3).mean()\<close>: the window of row \<open>i\<close> holds the rows \<open>i - 2\<close> to \<open>i\<close> (fewer at
  the start of the column); the result is the mean of the cells of the window that are
  not NaN when there are at least \<^verbatim>\<open>min_periods\<close> of them, NaN otherwise, and
  \<^verbatim>\<open>min_periods\<close> is the window size by default.
\<close>

definition window :: "nat \<Rightarrow> nat \<Rightarrow> cell list \<Rightarrow> cell list" where
  "window w i vs = drop (Suc i - w) (take (Suc i) vs)"

definition roll_mean_at :: "nat \<Rightarrow> cell list \<Rightarrow> nat \<Rightarrow> cell" where
  "roll_mean_at w vs i =
     (let obs = present (window w i vs)
      in if w \<le> length obs then Some (sum_list obs / real (length obs)) else None)"

definition rolling_mean :: "nat \<Rightarrow> cell list \<Rightarrow> cell list" where
  "rolling_mean w vs = map (roll_mean_at w vs) [0..<length vs]"

text \<open>
  Frames are objects: \<^verbatim>\<open>panel.copy()\<close> makes a new object, and
  \<^verbatim>\<open>display_df[col] = ...\<close> writes into the object \<^verbatim>\<open>display_df\<close> names. The store maps
  an object's address to its rows; a variable holds an address.
\<close>

type_synonym addr = nat

record store =
  frames :: "addr \<Rightarrow> prow list"
  next_addr :: addr

definition empty_store :: store where
  "empty_store = \<lparr>frames = (\<lambda>a. []), next_addr = 0\<rparr>"

definition alloc :: "prow list \<Rightarrow> store \<Rightarrow> addr \<times> store" where
  "alloc df s = (next_addr s, s\<lparr>frames := (frames s)(next_addr s := df), next_addr := Suc (next_addr s)\<rparr>)"

definition df_copy :: "addr \<Rightarrow> store \<Rightarrow> addr \<times> store" where
  "df_copy a s = alloc (frames s a) s"

definition column :: "col \<Rightarrow> prow list \<Rightarrow> cell list" where
  "column c df = map (cell_of c) df"

definition assign_col :: "col \<Rightarrow> cell list \<Rightarrow> prow list \<Rightarrow> prow list" where
  "assign_col c vs df = map (\<lambda>(r, v). set_cell c v r) (zip df vs)"

definition setitem :: "addr \<Rightarrow> col \<Rightarrow> cell list \<Rightarrow> store \<Rightarrow> store" where
  "setitem a c vs s = s\<lparr>frames := (frames s)(a := assign_col c vs (frames s a))\<rparr>"

definition smooth_col :: "addr \<Rightarrow> col \<Rightarrow> store \<Rightarrow> store" where
  "smooth_col a c s = setitem a c (rolling_mean 3 (column c (frames s a))) s"

definition make_display :: "bool \<Rightarrow> addr \<Rightarrow> store \<Rightarrow> addr \<times> store" where
  "make_display smooth panel s =
     (case df_copy panel s of (display_df, s1) \<Rightarrow>
        (display_df, if smooth then fold (smooth_col display_df) columns s1 else s1))"

section \<open>Presentation\<close>

text \<open>
  The format \<^verbatim>\<open>f"{value:,.2f}"\<close>: the value rounded to two decimals (ties to even),
  the integer part in groups of three digits separated by commas, a minus sign for a
  negative value.
\<close>

definition round_half_even :: "real \<Rightarrow> int" where
  "round_half_even x =
     (let f = \<lfloor>x\<rfloor>; r = x - of_int f
      in if r < 1 / 2 then f else if 1 / 2 < r then f + 1 else if even f then f else f + 1)"

definition digit_char :: "nat \<Rightarrow> char" where
  "digit_char d = ''0123456789'' ! (d mod 10)"

fun digits :: "nat \<Rightarrow> string" where
  "digits n = (if n < 10 then [digit_char n] else digits (n div 10) @ [digit_char (n mod 10)])"

function commas :: "string \<Rightarrow> string" where
  "commas ds = (if length ds \<le> 3 then ds
                else commas (take (length ds - 3) ds) @ '','' @ drop (length ds - 3) ds)"
  by pat_completeness auto
termination
  by (relation "measure length") auto

definition fmt2 :: "real \<Rightarrow> string" where
  "fmt2 x =
     (let n = nat (round_half_even (\<bar>x\<bar> * 100))
      in (if x < 0 then ''-'' else []) @ commas (digits (n div 100)) @ ''.''
         @ [digit_char (n mod 100 div 10), digit_char (n mod 10)])"

datatype sheet = Panel_sheet string "prow list" | Series_sheet string string series

datatype event =
    St_warning string
  | St_stop
  | Http_get string string
  | St_info string
  | St_metric string string
  | Plot string "(date \<times> real) list"
  | No_data string
  | Download "sheet list"
  | Uncaught error

definition metric_card :: "string \<Rightarrow> cell \<Rightarrow> string \<Rightarrow> event" where
  "metric_card label v suffix =
     St_metric label (case v of None \<Rightarrow> ''-'' | Some x \<Rightarrow> fmt2 x @ suffix)"

definition kpi_row :: "prow list \<Rightarrow> event list" where
  "kpi_row panel =
     (let latest = dropna_any panel
      in if latest = [] then [St_info ''No data available yet for the selected period.'']
         else (let lst = last latest
               in [metric_card ''CPI YoY'' (CPI_YoY lst) '' %'',
                   metric_card ''Unemployment'' (Unemployment lst) '' %'',
                   metric_card ''Real 10Y Yield'' (Real10Y lst) '' %'']))"

definition line_chart :: "prow list \<Rightarrow> col \<Rightarrow> event" where
  "line_chart df c =
     (let pts = concat (map (\<lambda>r. case cell_of c r of None \<Rightarrow> [] | Some x \<Rightarrow> [(key r, x)]) df)
      in if pts = [] then No_data (col_name c) else Plot (col_name c) pts)"

section \<open>The script\<close>

record config =
  api_key :: string
  start_date :: string
  smooth_ma :: bool

record fetched =
  cpi_m :: series
  cpi_yoy :: series
  unrate_m :: series
  real10_m :: series

definition setup_message :: string where
  "setup_message =
     ''Your app is running, but no FRED API key is set. Go to Streamlit ''
     @ [CHR 0xE2, CHR 0x86, CHR 0x92] @ '' Settings '' @ [CHR 0xE2, CHR 0x86, CHR 0x92]
     @ '' Secrets and add FRED_API_KEY.'' @ [CHR 0x0A, CHR 0x0A]
     @ ''See the README for instructions.''"

text \<open>
  A run of the script is the list of its calls to the outside, in order: requests to
  the remote source, warnings, info messages, metric cards, charts, the download and
  the stop. The page set-up (title, caption, sidebar widgets, subheaders) is the same
  in every run and is left out. \<^verbatim>\<open>st.secrets.get("FRED_API_KEY", "")\<close> is the field
  \<open>api_key\<close>, empty when the key is not set.

  The three fetches in the order of the script; an exception ends the script, so the
  first error is the result and the later requests are not made.
\<close>

definition fetch_data :: "config \<Rightarrow> web \<Rightarrow> event list \<times> (error + fetched)" where
  "fetch_data cfg www =
     (case fetch_fred www ''CPIAUCSL'' (start_date cfg) of
        Inl e \<Rightarrow> ([Http_get ''CPIAUCSL'' (start_date cfg)], Inl e)
      | Inr cpi_idx \<Rightarrow>
     (case cpi_yoy_from_index cpi_idx of
        Inl e \<Rightarrow> ([Http_get ''CPIAUCSL'' (start_date cfg)], Inl e)
      | Inr yoy \<Rightarrow>
     (case fetch_fred www ''UNRATE'' (start_date cfg) of
        Inl e \<Rightarrow> ([Http_get ''CPIAUCSL'' (start_date cfg), Http_get ''UNRATE'' (start_date cfg)], Inl e)
      | Inr unrate \<Rightarrow>
     (case fetch_fred www ''DFII10'' (start_date cfg) of
        Inl e \<Rightarrow> ([Http_get ''CPIAUCSL'' (start_date cfg), Http_get ''UNRATE'' (start_date cfg),
                   Http_get ''DFII10'' (start_date cfg)], Inl e)
      | Inr real10_daily \<Rightarrow>
          ([Http_get ''CPIAUCSL'' (start_date cfg), Http_get ''UNRATE'' (start_date cfg),
            Http_get ''DFII10'' (start_date cfg)],
           Inr \<lparr>cpi_m = monthlyize cpi_idx ''last'', cpi_yoy = yoy,
                unrate_m = monthlyize unrate ''last'',
                real10_m = monthlyize real10_daily ''mean''\<rparr>)))))"

definition export :: "prow list \<Rightarrow> fetched \<Rightarrow> event" where
  "export panel f =
     Download [Panel_sheet ''macro_panel'' panel,
               Series_sheet ''cpi_index'' ''CPI'' (cpi_m f),
               Series_sheet ''unemployment'' ''Unemployment'' (unrate_m f),
               Series_sheet ''real10y'' ''Real10Y'' (real10_m f)]"

definition render :: "bool \<Rightarrow> fetched \<Rightarrow> prow list \<Rightarrow> event list" where
  "render smooth f p =
     (case alloc p empty_store of (panel, s1) \<Rightarrow>
      case make_display smooth panel s1 of (display_df, s2) \<Rightarrow>
        kpi_row (frames s2 panel)
        @ [line_chart (frames s2 display_df) Col_CPI_YoY,
           line_chart (frames s2 display_df) Col_Unemployment,
           line_chart (frames s2 display_df) Col_Real10Y]
        @ [export (frames s2 panel) f])"

definition app :: "config \<Rightarrow> web \<Rightarrow> event list" where
  "app cfg www =
     (if api_key cfg = [] then [St_warning setup_message, St_stop]
      else case fetch_data cfg www of
        (tr, Inl e) \<Rightarrow> tr @ [Uncaught e]
      | (tr, Inr f) \<Rightarrow>
          (case build_panel (cpi_m f) (cpi_yoy f) (unrate_m f) (real10_m f) of
             Inl e \<Rightarrow> tr @ [Uncaught e]
           | Inr p \<Rightarrow> tr @ render (smooth_ma cfg) f p))"

section \<open>Example data\<close>

text \<open>
  A remote source as the statistics API answers: the price index dated on the first
  day of each month from January 2000 to January 2001 (100 to 112), one unemployment
  observation and two daily yields in January 2001. The constants after it name the
  frames the script computes from it.
\<close>

definition fred_example :: web where
  "fred_example series_id start =
     (if series_id = ''CPIAUCSL'' then Body (Some
        [((2000, 1, 1), Some 100), ((2000, 2, 1), Some 101), ((2000, 3, 1), Some 102),
          ((2000, 4, 1), Some 103), ((2000, 5, 1), Some 104), ((2000, 6, 1), Some 105),
          ((2000, 7, 1), Some 106), ((2000, 8, 1), Some 107), ((2000, 9, 1), Some 108),
          ((2000, 10, 1), Some 109), ((2000, 11, 1), Some 110), ((2000, 12, 1), Some 111),
          ((2001, 1, 1), Some 112)])
      else if series_id = ''UNRATE'' then Body (Some [((2001, 1, 1), Some (21 / 5))])
      else Body (Some [((2001, 1, 2), Some 2), ((2001, 1, 3), Some 3)]))"

definition cpi_example :: series where
  "cpi_example =
     [((2000, 1, 1), Some 100), ((2000, 2, 1), Some 101), ((2000, 3, 1), Some 102),
      ((2000, 4, 1), Some 103), ((2000, 5, 1), Some 104), ((2000, 6, 1), Some 105),
      ((2000, 7, 1), Some 106), ((2000, 8, 1), Some 107), ((2000, 9, 1), Some 108),
      ((2000, 10, 1), Some 109), ((2000, 11, 1), Some 110), ((2000, 12, 1), Some 111),
      ((2001, 1, 1), Some 112)]"

definition cpi_m_example :: series where
  "cpi_m_example =
     [((2000, 1, 31), Some 100), ((2000, 2, 29), Some 101), ((2000, 3, 31), Some 102),
      ((2000, 4, 30), Some 103), ((2000, 5, 31), Some 104), ((2000, 6, 30), Some 105),
      ((2000, 7, 31), Some 106), ((2000, 8, 31), Some 107), ((2000, 9, 30), Some 108),
      ((2000, 10, 31), Some 109), ((2000, 11, 30), Some 110), ((2000, 12, 31), Some 111),
      ((2001, 1, 31), Some 112)]"

definition yoy_example :: series where
  "yoy_example =
     [((2000, 1, 1), None), ((2000, 2, 1), None), ((2000, 3, 1), None),
      ((2000, 4, 1), None), ((2000, 5, 1), None), ((2000, 6, 1), None),
      ((2000, 7, 1), None), ((2000, 8, 1), None), ((2000, 9, 1), None),
      ((2000, 10, 1), None), ((2000, 11, 1), None), ((2000, 12, 1), None),
      ((2001, 1, 1), Some 12)]"

definition panel_example :: "prow list" where
  "panel_example =
     [\<lparr>key = (2000, 1, 31), CPI = Some 100, CPI_YoY = None,
        Unemployment = None, Real10Y = None\<rparr>,
      \<lparr>key = (2000, 2, 29), CPI = Some 101, CPI_YoY = None,
        Unemployment = None, Real10Y = None\<rparr>,
      \<lparr>key = (2000, 3, 31), CPI = Some 102, CPI_YoY = None,
        Unemployment = None, Real10Y = None\<rparr>,
      \<lparr>key = (2000, 4, 30), CPI = Some 103, CPI_YoY = None,
        Unemployment = None, Real10Y = None\<rparr>,
      \<lparr>key = (2000, 5, 31), CPI = Some 104, CPI_YoY = None,
        Unemployment = None, Real10Y = None\<rparr>,
      \<lparr>key = (2000, 6, 30), CPI = Some 105, CPI_YoY = None,
        Unemployment = None, Real10Y = None\<rparr>,
      \<lparr>key = (2000, 7, 31), CPI = Some 106, CPI_YoY = None,
        Unemployment = None, Real10Y = None\<rparr>,
      \<lparr>key = (2000, 8, 31), CPI = Some 107, CPI_YoY = None,
        Unemployment = None, Real10Y = None\<rparr>,
      \<lparr>key = (2000, 9, 30), CPI = Some 108, CPI_YoY = None,
        Unemployment = None, Real10Y = None\<rparr>,
      \<lparr>key = (2000, 10, 31), CPI = Some 109, CPI_YoY = None,
        Unemployment = None, Real10Y = None\<rparr>,
      \<lparr>key = (2000, 11, 30), CPI = Some 110, CPI_YoY = None,
        Unemployment = None, Real10Y = None\<rparr>,
      \<lparr>key = (2000, 12, 31), CPI = Some 111, CPI_YoY = None,
        Unemployment = None, Real10Y = None\<rparr>,
      \<lparr>key = (2001, 1, 1), CPI = None, CPI_YoY = Some 12,
        Unemployment = None, Real10Y = None\<rparr>,
      \<lparr>key = (2001, 1, 31), CPI = Some 112, CPI_YoY = None,
        Unemployment = Some (21 / 5), Real10Y = Some (5 / 2)\<rparr>]"

section \<open>Empty data\<close>

text \<open>
  C9. Empty data is not an error at any stage: a response with an empty list of
  observations (or without the key) gives the empty series, the Frequency Normalizer
  maps the empty series to the empty series in either mode, and the Derived Metric
  Calculator maps the empty series to the empty series.
\<close>

theorem empty_is_not_an_error:
  "fetch_fred (\<lambda>i s. Body (Some [])) series_id start = Inr []
   \<and> fetch_fred (\<lambda>i s. Body None) series_id start = Inr []
   \<and> monthlyize [] how = []
   \<and> cpi_yoy_from_index [] = Inr []"
  by (simp add: fetch_fred_def monthlyize_def cpi_yoy_from_index_def)

theorem empty_is_not_an_error_witness:
  "fetch_fred (\<lambda>i s. Body (Some [])) ''UNRATE'' ''2000-01-01'' = Inr []
   \<and> fetch_fred (\<lambda>i s. Body None) ''UNRATE'' ''2000-01-01'' = Inr []
   \<and> monthlyize [] ''last'' = []
   \<and> cpi_yoy_from_index [] = Inr []"
  using empty_is_not_an_error [of "''UNRATE''" "''2000-01-01''" "''last''"] by simp

section \<open>Cells and windows\<close>

lemma length_present: "length (present vs) \<le> length vs"
  by (induction vs) (auto simp: present_def split: option.splits)

lemma length_window: "length (window w i vs) \<le> min w (Suc i)"
  by (auto simp: window_def)

lemma window3: "2 \<le> i \<Longrightarrow> i < length vs \<Longrightarrow> window 3 i vs = [vs ! (i - 2), vs ! (i - 1), vs ! i]"
proof -
  assume a: "2 \<le> i" "i < length vs"
  define j where "j = i - 2"
  have i: "i = Suc (Suc j)" using a by (simp add: j_def)
  have "window 3 i vs = take 3 (drop j vs)"
    by (simp add: window_def i drop_take)
  also have "\<dots> = [vs ! j, vs ! Suc j, vs ! Suc (Suc j)]"
    using a(2) unfolding i
    by (simp add: numeral_3_eq_3 Cons_nth_drop_Suc [symmetric] Suc_lessD)
  finally show ?thesis by (simp add: i)
qed

lemma length_rolling_mean: "length (rolling_mean w vs) = length vs"
  by (simp add: rolling_mean_def)

lemma rolling_mean_nth: "i < length vs \<Longrightarrow> rolling_mean w vs ! i = roll_mean_at w vs i"
  by (simp add: rolling_mean_def)

lemma roll_head: "i < 2 \<Longrightarrow> roll_mean_at 3 vs i = None"
proof -
  assume "i < 2"
  have "length (present (window 3 i vs)) \<le> length (window 3 i vs)" by (rule length_present)
  also have "\<dots> \<le> min 3 (Suc i)" by (rule length_window)
  finally show ?thesis using \<open>i < 2\<close> by (simp add: roll_mean_at_def Let_def)
qed

lemma roll_full: "2 \<le> i \<Longrightarrow> i < length vs \<Longrightarrow> vs ! (i - 2) = Some a \<Longrightarrow> vs ! (i - 1) = Some b \<Longrightarrow> vs ! i = Some c
  \<Longrightarrow> roll_mean_at 3 vs i = Some ((a + b + c) / 3)"
  by (simp add: roll_mean_at_def window3 present_def)

lemma roll_missing: "2 \<le> i \<Longrightarrow> i < length vs \<Longrightarrow> vs ! (i - 2) = None \<or> vs ! (i - 1) = None \<or> vs ! i = None
  \<Longrightarrow> roll_mean_at 3 vs i = None"
  by (auto simp add: roll_mean_at_def window3 present_def split: option.splits)

lemma rolling_example: "rolling_mean 3 [Some 1, Some 2, Some 3, Some 4, Some 5] = [None, None, Some 2, Some 3, Some 4]"
  by (simp add: rolling_mean_def roll_mean_at_def window_def present_def upt_rec)

section \<open>Column assignment and the store\<close>

lemma length_column: "length (column c df) = length df"
  by (simp add: column_def)

lemma column_assign_same: "length vs = length df \<Longrightarrow> column c (assign_col c vs df) = vs"
proof (induction df arbitrary: vs)
  case Nil
  then show ?case by (simp add: column_def assign_col_def)
next
  case (Cons r df)
  then obtain v vs' where "vs = v # vs'" by (cases vs) auto
  with Cons show ?case by (cases c) (simp_all add: column_def assign_col_def)
qed

lemma column_assign_other: "length vs = length df \<Longrightarrow> c' \<noteq> c \<Longrightarrow> column c' (assign_col c vs df) = column c' df"
proof (induction df arbitrary: vs)
  case Nil
  then show ?case by (simp add: column_def assign_col_def)
next
  case (Cons r df)
  then obtain v vs' where "vs = v # vs'" by (cases vs) auto
  with Cons show ?case by (cases c; cases c') (simp_all add: column_def assign_col_def)
qed

lemma key_set_cell: "key (set_cell c v r) = key r"
  by (cases c) simp_all

lemma keys_assign: "length vs = length df \<Longrightarrow> map key (assign_col c vs df) = map key df"
proof (induction df arbitrary: vs)
  case Nil
  then show ?case by (simp add: assign_col_def)
next
  case (Cons r df)
  then obtain v vs' where "vs = v # vs'" by (cases vs) auto
  with Cons show ?case by (simp add: key_set_cell assign_col_def)
qed

lemma frames_smooth_col:
  "frames (smooth_col a c s) = (frames s)(a := assign_col c (rolling_mean 3 (column c (frames s a))) (frames s a))"
  by (simp add: smooth_col_def setitem_def)

lemma column_smooth_step:
  "column c' (assign_col c (rolling_mean 3 (column c df)) df) =
     (if c' = c then rolling_mean 3 (column c df) else column c' df)"
  by (simp add: column_assign_same column_assign_other length_rolling_mean length_column)

lemma keys_smooth_step: "map key (assign_col c (rolling_mean 3 (column c df)) df) = map key df"
  by (rule keys_assign) (simp add: length_rolling_mean length_column)

lemma frames_fold_smooth:
  "frames (fold (smooth_col a) cs s) b =
     (if b = a then fold (\<lambda>c df. assign_col c (rolling_mean 3 (column c df)) df) cs (frames s a)
      else frames s b)"
  by (induction cs arbitrary: s) (simp_all add: frames_smooth_col)

lemma length_assign: "length (assign_col c vs df) = min (length df) (length vs)"
  by (simp add: assign_col_def)

lemma column_smoothed:
  "column c (fold (\<lambda>c df. assign_col c (rolling_mean 3 (column c df)) df) columns df) =
     rolling_mean 3 (column c df)"
  by (cases c)
     (simp_all add: columns_def column_assign_same column_assign_other length_rolling_mean
        length_column length_assign)

lemma keys_smoothed:
  "map key (fold (\<lambda>c df. assign_col c (rolling_mean 3 (column c df)) df) cs df) = map key df"
  by (induction cs arbitrary: df) (simp_all add: keys_smooth_step)

lemma make_display_frames:
  "frames (snd (make_display smooth panel s)) b =
     (if b = next_addr s
      then (if smooth
            then fold (\<lambda>c df. assign_col c (rolling_mean 3 (column c df)) df) columns (frames s panel)
            else frames s panel)
      else frames s b)"
  by (simp add: make_display_def df_copy_def alloc_def frames_fold_smooth)

lemma make_display_addr: "fst (make_display smooth panel s) = next_addr s"
  by (simp add: make_display_def df_copy_def alloc_def)

text \<open>
  C6. With the flag off the display frame equals the panel. With the flag on every
  column of the display frame is the trailing 3-row mean of the same column of the
  panel, on the same dates; the first two rows of a smoothed column are missing, a row
  whose three trailing cells are present holds their arithmetic mean, and the column
  1, 2, 3, 4, 5 becomes missing, missing, 2, 3, 4.
\<close>

theorem display_transform:
  "frames (snd (make_display False panel s)) (fst (make_display False panel s)) = frames s panel
   \<and> (\<forall>c. column c (frames (snd (make_display True panel s)) (fst (make_display True panel s)))
           = rolling_mean 3 (column c (frames s panel)))
   \<and> map key (frames (snd (make_display True panel s)) (fst (make_display True panel s)))
       = map key (frames s panel)
   \<and> length (rolling_mean 3 vs) = length vs
   \<and> (\<forall>i<length vs. i < 2 \<longrightarrow> rolling_mean 3 vs ! i = None)
   \<and> (\<forall>i<length vs. \<forall>x y z. 2 \<le> i \<and> vs ! (i - 2) = Some x \<and> vs ! (i - 1) = Some y \<and> vs ! i = Some z
         \<longrightarrow> rolling_mean 3 vs ! i = Some ((x + y + z) / 3))
   \<and> rolling_mean 3 [Some 1, Some 2, Some 3, Some 4, Some 5] = [None, None, Some 2, Some 3, Some 4]"
proof -
  have a: "frames (snd (make_display False panel s)) (fst (make_display False panel s)) = frames s panel"
    by (simp add: make_display_frames make_display_addr)
  have b: "\<forall>c. column c (frames (snd (make_display True panel s)) (fst (make_display True panel s)))
           = rolling_mean 3 (column c (frames s panel))"
    by (simp add: make_display_frames make_display_addr column_smoothed)
  have c: "map key (frames (snd (make_display True panel s)) (fst (make_display True panel s)))
       = map key (frames s panel)"
    by (simp add: make_display_frames make_display_addr keys_smoothed)
  have d: "\<forall>i<length vs. i < 2 \<longrightarrow> rolling_mean 3 vs ! i = None"
    by (simp add: rolling_mean_nth roll_head)
  have e: "\<forall>i<length vs. \<forall>x y z. 2 \<le> i \<and> vs ! (i - 2) = Some x \<and> vs ! (i - 1) = Some y \<and> vs ! i = Some z
         \<longrightarrow> rolling_mean 3 vs ! i = Some ((x + y + z) / 3)"
    by (simp add: rolling_mean_nth roll_full)
  from a b c d e show ?thesis
    by (simp only: length_rolling_mean rolling_example simp_thms)
qed

theorem display_transform_witness:
  "column Col_Unemployment
     (frames (snd (make_display True 0 \<lparr>frames = (\<lambda>a. map (\<lambda>v. \<lparr>key = (2000, 1, 31), CPI = None, CPI_YoY = None, Unemployment = v, Real10Y = None\<rparr>)
           [Some 4, Some 5, Some 6]), next_addr = 1\<rparr>))
       (fst (make_display True 0 \<lparr>frames = (\<lambda>a. map (\<lambda>v. \<lparr>key = (2000, 1, 31), CPI = None, CPI_YoY = None, Unemployment = v, Real10Y = None\<rparr>)
           [Some 4, Some 5, Some 6]), next_addr = 1\<rparr>)))
   = [None, None, Some 5]
   \<and> (0::nat) < length [Some (4::real), Some 5, Some 6] \<and> (0::nat) < 2
   \<and> rolling_mean 3 [Some 4, Some 5, Some 6] ! 0 = None
   \<and> (2::nat) < length [Some (4::real), Some 5, Some 6]
   \<and> rolling_mean 3 [Some 4, Some 5, Some 6] ! 2 = Some ((4 + 5 + 6) / 3)"
proof -
  note t = display_transform [of 0 "\<lparr>frames = (\<lambda>a. map (\<lambda>v. \<lparr>key = (2000, 1, 31), CPI = None, CPI_YoY = None, Unemployment = v, Real10Y = None\<rparr>)
           [Some 4, Some 5, Some 6]), next_addr = 1\<rparr>" "[Some 4, Some 5, Some 6]"]
  have r: "rolling_mean 3 [Some 4, Some 5, Some 6] = [None, None, Some 5]"
    by (simp add: rolling_mean_def roll_mean_at_def window_def present_def upt_rec)
  from t have "column Col_Unemployment
     (frames (snd (make_display True 0 \<lparr>frames = (\<lambda>a. map (\<lambda>v. \<lparr>key = (2000, 1, 31), CPI = None, CPI_YoY = None, Unemployment = v, Real10Y = None\<rparr>)
           [Some 4, Some 5, Some 6]), next_addr = 1\<rparr>))
       (fst (make_display True 0 \<lparr>frames = (\<lambda>a. map (\<lambda>v. \<lparr>key = (2000, 1, 31), CPI = None, CPI_YoY = None, Unemployment = v, Real10Y = None\<rparr>)
           [Some 4, Some 5, Some 6]), next_addr = 1\<rparr>)))
     = rolling_mean 3 [Some 4, Some 5, Some 6]"
    by (simp add: column_def)
  moreover from t have "rolling_mean 3 [Some 4, Some 5, Some 6] ! 0 = None" by simp
  moreover from t have "rolling_mean 3 [Some 4, Some 5, Some 6] ! 2 = Some ((4 + 5 + 6) / 3)" by simp
  ultimately show ?thesis by (simp add: r)
qed


text \<open>
  C10. With the flag on, the smoothed cell of row \<open>i\<close> of a column is missing whenever
  one of the rows \<open>i - 2\<close>, \<open>i - 1\<close>, \<open>i\<close> of that column is missing in the
  panel: a missing cell at row \<open>j\<close> makes the smoothed cells of the rows \<open>j\<close> to
  \<open>j + 2\<close> missing.
\<close>

theorem smoothing_propagates_missing:
  "\<forall>c i j. i < length (frames s panel) \<and> j \<le> i \<and> i \<le> j + 2
       \<and> column c (frames s panel) ! j = None
     \<longrightarrow> column c (frames (snd (make_display True panel s)) (fst (make_display True panel s))) ! i = None"
proof (intro allI impI)
  fix c i j
  assume h: "i < length (frames s panel) \<and> j \<le> i \<and> i \<le> j + 2 \<and> column c (frames s panel) ! j = None"
  let ?vs = "column c (frames s panel)"
  have len: "i < length ?vs" using h by (simp add: length_column)
  have "roll_mean_at 3 ?vs i = None"
  proof (cases "i < 2")
    case True
    then show ?thesis by (rule roll_head)
  next
    case False
    then have i2: "2 \<le> i" by simp
    from h have "j = i - 2 \<or> j = i - 1 \<or> j = i" by arith
    with h have "?vs ! (i - 2) = None \<or> ?vs ! (i - 1) = None \<or> ?vs ! i = None" by auto
    with i2 len show ?thesis by (rule roll_missing)
  qed
  with len show "column c (frames (snd (make_display True panel s)) (fst (make_display True panel s))) ! i = None"
    by (simp add: make_display_frames make_display_addr column_smoothed rolling_mean_nth)
qed

theorem smoothing_propagates_missing_witness:
  "column Col_CPI (frames (snd (make_display True 0
       \<lparr>frames = (\<lambda>a. map (\<lambda>v. \<lparr>key = (2000, 1, 31), CPI = v, CPI_YoY = None, Unemployment = None, Real10Y = None\<rparr>)
           [Some 1, Some 2, Some 3, None, Some 5]), next_addr = 1\<rparr>))
     (fst (make_display True 0
       \<lparr>frames = (\<lambda>a. map (\<lambda>v. \<lparr>key = (2000, 1, 31), CPI = v, CPI_YoY = None, Unemployment = None, Real10Y = None\<rparr>)
           [Some 1, Some 2, Some 3, None, Some 5]), next_addr = 1\<rparr>))) ! 4 = None"
  using smoothing_propagates_missing [of "\<lparr>frames = (\<lambda>a. map (\<lambda>v. \<lparr>key = (2000, 1, 31), CPI = v, CPI_YoY = None, Unemployment = None, Real10Y = None\<rparr>)
           [Some 1, Some 2, Some 3, None, Some 5]), next_addr = 1\<rparr>" 0, rule_format, of 4 3 Col_CPI]
  by (simp add: column_def)

section \<open>Export\<close>

lemma alloc_empty: "alloc p empty_store = (0, \<lparr>frames = (\<lambda>a. [])(0 := p), next_addr = Suc 0\<rparr>)"
  by (simp add: alloc_def empty_store_def)

lemma make_display_panel:
  "panel < next_addr s \<Longrightarrow> frames (snd (make_display smooth panel s)) panel = frames s panel"
  by (simp add: make_display_frames)

lemma render_eq:
  "render smooth f p =
     kpi_row p
     @ [line_chart (frames (snd (make_display smooth 0 (snd (alloc p empty_store)))) (Suc 0)) Col_CPI_YoY,
        line_chart (frames (snd (make_display smooth 0 (snd (alloc p empty_store)))) (Suc 0)) Col_Unemployment,
        line_chart (frames (snd (make_display smooth 0 (snd (alloc p empty_store)))) (Suc 0)) Col_Real10Y]
     @ [export p f]"
proof -
  obtain d s2 where m: "make_display smooth 0 (snd (alloc p empty_store)) = (d, s2)"
    by (cases "make_display smooth 0 (snd (alloc p empty_store))")
  have d: "d = Suc 0" using make_display_addr [of smooth 0 "snd (alloc p empty_store)"] m
    by (simp add: alloc_empty)
  have p: "frames s2 0 = p" using make_display_panel [of 0 "snd (alloc p empty_store)" smooth] m
    by (simp add: alloc_empty)
  show ?thesis by (simp add: render_def alloc_empty [of p] m [unfolded alloc_empty, simplified] d p)
qed

lemma kpi_row_no_download: "Download x \<notin> set (kpi_row p)"
  by (simp add: kpi_row_def Let_def metric_card_def)

lemma line_chart_no_download: "line_chart df c \<noteq> Download x" "Download x \<noteq> line_chart df c"
  by (simp_all add: line_chart_def Let_def)

lemma downloads_render: "{x. Download x \<in> set (render smooth f p)} = {x. Download x = export p f}"
  by (auto simp: render_eq kpi_row_no_download line_chart_no_download)

lemma fetch_data_smooth: "fetch_data (cfg\<lparr>smooth_ma := b\<rparr>) www = fetch_data cfg www"
  by (simp add: fetch_data_def split: sum.splits)

lemma fetch_data_no_download: "Download x \<notin> set (fst (fetch_data cfg www))"
  by (simp add: fetch_data_def split: sum.splits)

lemma download_in_app:
  "(Download x \<in> set (app (cfg\<lparr>smooth_ma := b\<rparr>) www))
     = (Download x \<in> set (app (cfg\<lparr>smooth_ma := False\<rparr>) www))"
proof -
  have r: "\<And>b f p. (Download x \<in> set (render b f p)) = (Download x = export p f)"
    using downloads_render by blast
  obtain tr res where fd: "fetch_data cfg www = (tr, res)"
    by (cases "fetch_data cfg www")
  show ?thesis
  proof (cases res)
    case (Inl e)
    with fd show ?thesis by (simp add: app_def fetch_data_smooth)
  next
    case (Inr f)
    with fd show ?thesis
      by (cases "build_panel (cpi_m f) (cpi_yoy f) (unrate_m f) (real10_m f)")
         (simp_all add: app_def fetch_data_smooth r)
  qed
qed

text \<open>
  C7. The Display Transform leaves the panel object unchanged for either value of the
  flag (it writes into the copy, a new object), the last event of the render is the
  export of the unsmoothed panel, and the exports of a render and of a whole run are the
  same with the flag on and off.
\<close>

theorem export_unsmoothed:
  "(\<forall>smooth. panel < next_addr s \<longrightarrow> frames (snd (make_display smooth panel s)) panel = frames s panel)
   \<and> (\<forall>smooth. last (render smooth f p) = export p f)
   \<and> {x. Download x \<in> set (render True f p)} = {x. Download x \<in> set (render False f p)}
   \<and> {x. Download x \<in> set (app (cfg\<lparr>smooth_ma := True\<rparr>) www)}
       = {x. Download x \<in> set (app (cfg\<lparr>smooth_ma := False\<rparr>) www)}"
proof -
  have a: "\<forall>smooth. panel < next_addr s \<longrightarrow> frames (snd (make_display smooth panel s)) panel = frames s panel"
    by (simp add: make_display_panel)
  have b: "\<forall>smooth. last (render smooth f p) = export p f"
    by (simp add: render_eq)
  have c: "{x. Download x \<in> set (render True f p)} = {x. Download x \<in> set (render False f p)}"
    by (simp add: downloads_render)
  have d: "{x. Download x \<in> set (app (cfg\<lparr>smooth_ma := True\<rparr>) www)}
       = {x. Download x \<in> set (app (cfg\<lparr>smooth_ma := False\<rparr>) www)}"
    by (simp only: download_in_app [where b = True])
  from a b c d show ?thesis by (intro conjI)
qed

theorem export_unsmoothed_witness:
  "(0::nat) < next_addr (snd (alloc
       (map (\<lambda>v. \<lparr>key = (2000, 1, 31), CPI = v, CPI_YoY = None, Unemployment = None, Real10Y = None\<rparr>)
          [Some 1, Some 2, Some 3]) empty_store))
   \<and> frames (snd (make_display True 0 (snd (alloc
       (map (\<lambda>v. \<lparr>key = (2000, 1, 31), CPI = v, CPI_YoY = None, Unemployment = None, Real10Y = None\<rparr>)
          [Some 1, Some 2, Some 3]) empty_store)))) 0
     = map (\<lambda>v. \<lparr>key = (2000, 1, 31), CPI = v, CPI_YoY = None, Unemployment = None, Real10Y = None\<rparr>)
          [Some 1, Some 2, Some 3]"
proof -
  let ?p = "map (\<lambda>v. \<lparr>key = (2000, 1, 31), CPI = v, CPI_YoY = None, Unemployment = None, Real10Y = None\<rparr>)
          [Some 1, Some 2, Some 3]"
  have h: "(0::nat) < next_addr (snd (alloc ?p empty_store))" by (simp add: alloc_def)
  have f: "frames (snd (alloc ?p empty_store)) 0 = ?p" by (simp add: alloc_def empty_store_def)
  from export_unsmoothed [of 0 "snd (alloc ?p empty_store)"] h
  have "frames (snd (make_display True 0 (snd (alloc ?p empty_store)))) 0
          = frames (snd (alloc ?p empty_store)) 0"
    by blast
  with h f show ?thesis by (simp only: simp_thms)
qed

section \<open>Credential\<close>

text \<open>
  C8. Without the credential the run consists of the setup warning and the stop: no
  request is made, whatever the remote source would answer.
\<close>

theorem missing_credential_halts:
  "api_key cfg = [] \<Longrightarrow>
     app cfg www = [St_warning setup_message, St_stop] \<and> (\<forall>i s. Http_get i s \<notin> set (app cfg www))"
  by (simp add: app_def)


theorem missing_credential_halts_witness:
  "api_key \<lparr>api_key = [], start_date = ''2000-01-01'', smooth_ma = False\<rparr> = []
   \<and> app \<lparr>api_key = [], start_date = ''2000-01-01'', smooth_ma = False\<rparr> (\<lambda>i s. Http_failure)
       = [St_warning setup_message, St_stop]
   \<and> Http_get ''CPIAUCSL'' ''2000-01-01''
       \<notin> set (app \<lparr>api_key = [], start_date = ''2000-01-01'', smooth_ma = False\<rparr> (\<lambda>i s. Http_failure))"
proof -
  have h: "api_key \<lparr>api_key = [], start_date = ''2000-01-01'', smooth_ma = False\<rparr> = []" by simp
  note t = missing_credential_halts [OF h, of "\<lambda>i s. Http_failure"]
  from t have a: "app \<lparr>api_key = [], start_date = ''2000-01-01'', smooth_ma = False\<rparr> (\<lambda>i s. Http_failure)
       = [St_warning setup_message, St_stop]" by (rule conjunct1)
  from t have b: "Http_get ''CPIAUCSL'' ''2000-01-01''
       \<notin> set (app \<lparr>api_key = [], start_date = ''2000-01-01'', smooth_ma = False\<rparr> (\<lambda>i s. Http_failure))"
    by (elim conjE allE)
  from h a b show ?thesis by (intro conjI)
qed

section \<open>Joining\<close>

lemma lookup_Some: "distinct (map fst s) \<Longrightarrow> (lookup s k = Some v) = ((k, Some v) \<in> set s)"
proof (cases "map_of s k")
  case None
  then have "k \<notin> fst ` set s" by (simp add: map_of_eq_None_iff)
  then have "(k, Some v) \<notin> set s" by force
  with None show ?thesis by (simp add: lookup_def)
next
  case (Some w)
  assume d: "distinct (map fst s)"
  from Some d have "\<And>y. ((k, y) \<in> set s) = (y = w)"
    by (metis map_of_eq_Some_iff option.inject)
  with Some show ?thesis by (auto simp: lookup_def)
qed

lemma lookup_None: "distinct (map fst s) \<Longrightarrow> (lookup s k = None) = (\<forall>v. (k, Some v) \<notin> set s)"
  using lookup_Some [of s k] by (cases "lookup s k") auto

lemma lookup_nth: "distinct (map fst s) \<Longrightarrow> i < length s \<Longrightarrow> lookup s (fst (s ! i)) = snd (s ! i)"
proof -
  assume d: "distinct (map fst s)" and i: "i < length s"
  from i have "(fst (s ! i), snd (s ! i)) \<in> set s" by simp
  with d have "map_of s (fst (s ! i)) = Some (snd (s ! i))" by (rule map_of_is_SomeI)
  then show ?thesis by (simp add: lookup_def)
qed

lemma set_union2: "set (union2 srt x y) = set x \<union> set y"
  by (auto simp: union2_def)

lemma distinct_union2: "distinct x \<Longrightarrow> distinct y \<Longrightarrow> distinct (union2 srt x y)"
  by (auto simp: union2_def)

lemma sorted_union2: "sorted x \<Longrightarrow> sorted y \<Longrightarrow> sorted (union2 True x y)"
  by (simp add: union2_def)

lemma union_index4:
  "union_index [a, b, c, d] =
     union2 (a \<noteq> [] \<and> b \<noteq> [] \<and> c \<noteq> [] \<and> d \<noteq> [])
       (union2 (a \<noteq> [] \<and> b \<noteq> [] \<and> c \<noteq> [] \<and> d \<noteq> [])
          (union2 (a \<noteq> [] \<and> b \<noteq> [] \<and> c \<noteq> [] \<and> d \<noteq> []) (map fst a) (map fst b))
          (map fst c))
       (map fst d)"
  by (simp add: union_index_def)

lemma set_union_index:
  "set (union_index [a, b, c, d]) = fst ` set a \<union> fst ` set b \<union> fst ` set c \<union> fst ` set d"
  by (simp add: union_index4 set_union2)

lemma distinct_union_index:
  "distinct (map fst a) \<Longrightarrow> distinct (map fst b) \<Longrightarrow> distinct (map fst c) \<Longrightarrow> distinct (map fst d) \<Longrightarrow>
   distinct (union_index [a, b, c, d])"
  by (simp add: union_index4 distinct_union2)

lemma sorted_union_index:
  "a \<noteq> [] \<Longrightarrow> b \<noteq> [] \<Longrightarrow> c \<noteq> [] \<Longrightarrow> d \<noteq> [] \<Longrightarrow>
   sorted (map fst a) \<Longrightarrow> sorted (map fst b) \<Longrightarrow> sorted (map fst c) \<Longrightarrow> sorted (map fst d) \<Longrightarrow>
   sorted (union_index [a, b, c, d])"
  by (simp add: union_index4 sorted_union2)

lemma union_index_equal:
  "map fst a = map fst b \<Longrightarrow> map fst b = map fst c \<Longrightarrow> map fst c = map fst d \<Longrightarrow>
   union_index [a, b, c, d] = map fst a"
  by (simp add: union_index4 union2_def)

lemma side_by_side_eq:
  assumes e: "map fst a = map fst b" "map fst b = map fst c" "map fst c = map fst d"
    and da: "distinct (map fst a)"
  shows "side_by_side a b c d =
     map (\<lambda>k. \<lparr>key = k, CPI = lookup a k, CPI_YoY = lookup b k,
                 Unemployment = lookup c k, Real10Y = lookup d k\<rparr>) (map fst a)"
proof (rule nth_equalityI)
  have lb: "length b = length a" using e(1) by (metis length_map)
  have lc: "length c = length a" using e(1,2) by (metis length_map)
  have ld: "length d = length a" using e by (metis length_map)
  show "length (side_by_side a b c d) =
     length (map (\<lambda>k. \<lparr>key = k, CPI = lookup a k, CPI_YoY = lookup b k,
                 Unemployment = lookup c k, Real10Y = lookup d k\<rparr>) (map fst a))"
    by (simp add: side_by_side_def lb lc ld)
  fix i assume "i < length (side_by_side a b c d)"
  then have i: "i < length a" by (simp add: side_by_side_def lb lc ld)
  have kb: "fst (b ! i) = fst (a ! i)"
    using e(1) i lb by (metis nth_map)
  have kc: "fst (c ! i) = fst (a ! i)"
    using e(1,2) i lc by (metis nth_map)
  have kd: "fst (d ! i) = fst (a ! i)"
    using e i ld by (metis nth_map)
  have db: "distinct (map fst b)" and dc: "distinct (map fst c)" and dd: "distinct (map fst d)"
    using da e by simp_all
  have va: "lookup a (fst (a ! i)) = snd (a ! i)" using da i by (rule lookup_nth)
  have vb: "lookup b (fst (a ! i)) = snd (b ! i)"
    using lookup_nth [OF db, of i] i lb kb by simp
  have vc: "lookup c (fst (a ! i)) = snd (c ! i)"
    using lookup_nth [OF dc, of i] i lc kc by simp
  have vd: "lookup d (fst (a ! i)) = snd (d ! i)"
    using lookup_nth [OF dd, of i] i ld kd by simp
  show "side_by_side a b c d ! i =
     map (\<lambda>k. \<lparr>key = k, CPI = lookup a k, CPI_YoY = lookup b k,
                 Unemployment = lookup c k, Real10Y = lookup d k\<rparr>) (map fst a) ! i"
    using i by (simp add: side_by_side_def lb lc ld va vb vc vd)
qed

lemma union_index_first_appearance:
  "union_index [[((2001, 1, 31), Some 1)], [((2001, 1, 1), Some 2)], [], []] = [(2001, 1, 31), (2001, 1, 1)]
   \<and> union_index [[((2001, 1, 31), Some 1)], [((2001, 1, 1), Some 2)], [((2001, 1, 31), Some 3)],
        [((2001, 1, 31), Some 4)]] = [(2001, 1, 1), (2001, 1, 31)]"
  by (simp add: union_index4 union2_def)

lemma keys_filter_rows:
  "map key (filter P (map (\<lambda>k. \<lparr>key = k, CPI = f1 k, CPI_YoY = f2 k, Unemployment = f3 k, Real10Y = f4 k\<rparr>) ks))
     = filter (\<lambda>k. P \<lparr>key = k, CPI = f1 k, CPI_YoY = f2 k, Unemployment = f3 k, Real10Y = f4 k\<rparr>) ks"
  by (induction ks) simp_all

lemma build_panel_eq:
  "distinct (map fst a) \<Longrightarrow> distinct (map fst b) \<Longrightarrow> distinct (map fst c) \<Longrightarrow> distinct (map fst d) \<Longrightarrow>
   build_panel a b c d =
     Inr (filter (\<lambda>r. \<not> all_missing r)
           (map (\<lambda>k. \<lparr>key = k, CPI = lookup a k, CPI_YoY = lookup b k,
                       Unemployment = lookup c k, Real10Y = lookup d k\<rparr>)
                (union_index [a, b, c, d])))"
proof -
  assume d: "distinct (map fst a)" "distinct (map fst b)" "distinct (map fst c)" "distinct (map fst d)"
  show ?thesis
  proof (cases "map fst a = map fst b \<and> map fst b = map fst c \<and> map fst c = map fst d")
    case True
    then have e: "map fst a = map fst b" "map fst b = map fst c" "map fst c = map fst d"
      by simp_all
    from True have "concat_cols a b c d = Inr (side_by_side a b c d)"
      by (simp add: concat_cols_def)
    then show ?thesis
      by (simp only: build_panel_def sum.case dropna_all_def
          side_by_side_eq [OF e d(1)] union_index_equal [OF e])
  next
    case False
    with d have "concat_cols a b c d =
        Inr (map (\<lambda>k. \<lparr>key = k, CPI = lookup a k, CPI_YoY = lookup b k,
                       Unemployment = lookup c k, Real10Y = lookup d k\<rparr>)
                (union_index [a, b, c, d]))"
      unfolding concat_cols_def by (simp only: if_False simp_thms)
    then show ?thesis
      by (simp only: build_panel_def sum.case dropna_all_def)
  qed
qed

lemma build_panel_keys:
  "distinct (map fst a) \<Longrightarrow> distinct (map fst b) \<Longrightarrow> distinct (map fst c) \<Longrightarrow> distinct (map fst d) \<Longrightarrow>
   build_panel a b c d = Inr p \<Longrightarrow>
   map key p = filter (\<lambda>k. \<not> (lookup a k = None \<and> lookup b k = None \<and> lookup c k = None \<and> lookup d k = None))
                 (union_index [a, b, c, d])"
proof -
  assume d: "distinct (map fst a)" "distinct (map fst b)" "distinct (map fst c)" "distinct (map fst d)"
    and p: "build_panel a b c d = Inr p"
  from p have "p = filter (\<lambda>r. \<not> all_missing r)
           (map (\<lambda>k. \<lparr>key = k, CPI = lookup a k, CPI_YoY = lookup b k,
                       Unemployment = lookup c k, Real10Y = lookup d k\<rparr>)
                (union_index [a, b, c, d]))"
    by (simp only: build_panel_eq [OF d] sum.inject)
  then show ?thesis
    by (simp only: keys_filter_rows) (simp add: all_missing_def)
qed

lemma build_panel_cells:
  "distinct (map fst a) \<Longrightarrow> distinct (map fst b) \<Longrightarrow> distinct (map fst c) \<Longrightarrow> distinct (map fst d) \<Longrightarrow>
   build_panel a b c d = Inr p \<Longrightarrow> r \<in> set p \<Longrightarrow>
   CPI r = lookup a (key r) \<and> CPI_YoY r = lookup b (key r)
   \<and> Unemployment r = lookup c (key r) \<and> Real10Y r = lookup d (key r)"
  by (auto simp: build_panel_eq)

text \<open>
  C3. For four input series with unique dates the Panel Assembler returns a panel
  without duplicate dates; its set of dates is the union of the dates of the inputs
  minus the dates at which no input has a present value; each cell is the value of its
  series at the date of the row (missing when the series has no such date); a date at
  which some input has a present value is kept, whatever the other columns hold there.
  The rows are in ascending order when no input is empty and every input is in
  ascending order.
\<close>

theorem panel_rows:
  assumes "distinct (map fst a)" "distinct (map fst b)" "distinct (map fst c)" "distinct (map fst d)"
  shows "\<exists>p. build_panel a b c d = Inr p
     \<and> distinct (map key p)
     \<and> set (map key p) = fst ` (set a \<union> set b \<union> set c \<union> set d)
                          - {k. \<forall>v. (k, Some v) \<notin> set a \<union> set b \<union> set c \<union> set d}
     \<and> (\<forall>r\<in>set p. CPI r = lookup a (key r) \<and> CPI_YoY r = lookup b (key r)
                     \<and> Unemployment r = lookup c (key r) \<and> Real10Y r = lookup d (key r))
     \<and> (\<forall>k v. (k, Some v) \<in> set a \<union> set b \<union> set c \<union> set d \<longrightarrow> k \<in> set (map key p))
     \<and> (a \<noteq> [] \<and> b \<noteq> [] \<and> c \<noteq> [] \<and> d \<noteq> []
          \<and> sorted (map fst a) \<and> sorted (map fst b) \<and> sorted (map fst c) \<and> sorted (map fst d)
        \<longrightarrow> sorted (map key p))"
proof -
  obtain p where p: "build_panel a b c d = Inr p"
    using assms by (simp add: build_panel_eq)
  note keys = build_panel_keys [OF assms p]
  have dist: "distinct (map key p)"
    unfolding keys using assms by (simp add: distinct_union_index)
  have srt: "a \<noteq> [] \<and> b \<noteq> [] \<and> c \<noteq> [] \<and> d \<noteq> []
          \<and> sorted (map fst a) \<and> sorted (map fst b) \<and> sorted (map fst c) \<and> sorted (map fst d)
        \<longrightarrow> sorted (map key p)"
    unfolding keys by (simp add: sorted_union_index sorted_wrt_filter)
  have mem: "\<And>k. (k \<in> set (map key p)) =
       (k \<in> fst ` (set a \<union> set b \<union> set c \<union> set d) \<and> (\<exists>v. (k, Some v) \<in> set a \<union> set b \<union> set c \<union> set d))"
    unfolding keys using assms
    by (simp add: set_union_index lookup_None image_Un) blast
  have st: "set (map key p) = fst ` (set a \<union> set b \<union> set c \<union> set d)
                          - {k. \<forall>v. (k, Some v) \<notin> set a \<union> set b \<union> set c \<union> set d}"
    using mem by blast
  have cells: "\<forall>r\<in>set p. CPI r = lookup a (key r) \<and> CPI_YoY r = lookup b (key r)
                     \<and> Unemployment r = lookup c (key r) \<and> Real10Y r = lookup d (key r)"
    using build_panel_cells [OF assms p] by blast
  have kept: "\<forall>k v. (k, Some v) \<in> set a \<union> set b \<union> set c \<union> set d \<longrightarrow> k \<in> set (map key p)"
  proof (intro allI impI)
    fix k v assume "(k, Some v) \<in> set a \<union> set b \<union> set c \<union> set d"
    then have "k \<in> fst ` (set a \<union> set b \<union> set c \<union> set d) \<and> (\<exists>v. (k, Some v) \<in> set a \<union> set b \<union> set c \<union> set d)"
      by force
    then show "k \<in> set (map key p)" by (simp only: mem)
  qed
  from p dist st cells kept srt show ?thesis by blast
qed


theorem panel_rows_witness:
  "distinct (map fst [((2000::int, 1::nat, 31::nat), Some (1::real)), ((2000, 2, 29), None)])
   \<and> distinct (map fst [((2000::int, 2::nat, 29::nat), None :: real option), ((2000, 3, 31), Some 5)])
   \<and> distinct (map fst [((2000::int, 3::nat, 31::nat), None :: real option)])
   \<and> distinct (map fst [((2000::int, 1::nat, 31::nat), None :: real option)])
   \<and> (\<exists>p. build_panel [((2000::int, 1::nat, 31::nat), Some (1::real)), ((2000, 2, 29), None)]
                          [((2000::int, 2::nat, 29::nat), None :: real option), ((2000, 3, 31), Some 5)]
                          [((2000::int, 3::nat, 31::nat), None :: real option)]
                          [((2000::int, 1::nat, 31::nat), None :: real option)] = Inr p
          \<and> distinct (map key p)
          \<and> set (map key p) = {(2000, 1, 31), (2000, 3, 31)}
          \<and> sorted (map key p))"
proof -
  let ?a = "[((2000::int, 1::nat, 31::nat), Some (1::real)), ((2000, 2, 29), None)]"
  let ?b = "[((2000::int, 2::nat, 29::nat), None :: real option), ((2000, 3, 31), Some 5)]"
  let ?c = "[((2000::int, 3::nat, 31::nat), None :: real option)]"
  let ?d = "[((2000::int, 1::nat, 31::nat), None :: real option)]"
  have h1: "distinct (map fst ?a)" by simp
  have h2: "distinct (map fst ?b)" by simp
  have h3: "distinct (map fst ?c)" by simp
  have h4: "distinct (map fst ?d)" by simp
  have h5: "?a \<noteq> [] \<and> ?b \<noteq> [] \<and> ?c \<noteq> [] \<and> ?d \<noteq> []
          \<and> sorted (map fst ?a) \<and> sorted (map fst ?b) \<and> sorted (map fst ?c) \<and> sorted (map fst ?d)"
    by simp
  from panel_rows [OF h1 h2 h3 h4] obtain p where
    p: "build_panel ?a ?b ?c ?d = Inr p"
    and d: "distinct (map key p)"
    and s: "set (map key p) = fst ` (set ?a \<union> set ?b \<union> set ?c \<union> set ?d)
          - {k. \<forall>v. (k, Some v) \<notin> set ?a \<union> set ?b \<union> set ?c \<union> set ?d}"
    and o: "?a \<noteq> [] \<and> ?b \<noteq> [] \<and> ?c \<noteq> [] \<and> ?d \<noteq> []
          \<and> sorted (map fst ?a) \<and> sorted (map fst ?b) \<and> sorted (map fst ?c) \<and> sorted (map fst ?d)
        \<longrightarrow> sorted (map key p)"
    by blast
  from s have k: "set (map key p) = {(2000, 1, 31), (2000, 3, 31)}" by auto
  from o h5 have srt: "sorted (map key p)" by (rule mp)
  from p d k srt have "\<exists>p. build_panel ?a ?b ?c ?d = Inr p
          \<and> distinct (map key p)
          \<and> set (map key p) = {(2000, 1, 31), (2000, 3, 31)}
          \<and> sorted (map key p)"
    by blast
  with h1 h2 h3 h4 show ?thesis by (intro conjI)
qed

section \<open>Summary metrics\<close>

lemma digit_char_digit: "digit_char d \<in> set ''0123456789''"
  unfolding digit_char_def by (rule nth_mem) simp

lemma fmt2_shape:
  "\<exists>ip a b. fmt2 x = ip @ ''.'' @ [a, b] \<and> a \<in> set ''0123456789'' \<and> b \<in> set ''0123456789''"
proof -
  define n where "n = nat (round_half_even (\<bar>x\<bar> * 100))"
  have "fmt2 x = ((if x < 0 then ''-'' else []) @ commas (digits (n div 100))) @ ''.''
         @ [digit_char (n mod 100 div 10), digit_char (n mod 10)]"
    by (simp add: fmt2_def n_def Let_def)
  with digit_char_digit show ?thesis by blast
qed

lemma round_half_even_near: "\<bar>x - of_int (round_half_even x)\<bar> \<le> 1 / 2"
proof -
  have "of_int \<lfloor>x\<rfloor> \<le> x" "x < of_int \<lfloor>x\<rfloor> + 1" by linarith+
  then show ?thesis
    by (auto simp: round_half_even_def Let_def)
qed

lemma sorted_key_le_last: "sorted (map f xs) \<Longrightarrow> x \<in> set xs \<Longrightarrow> f x \<le> f (last xs)"
proof (induction xs)
  case Nil
  then show ?case by simp
next
  case (Cons a xs)
  then show ?case by (cases "xs = []") auto
qed

lemma dropna_any_complete: "r \<in> set (dropna_any p) \<Longrightarrow> \<exists>w x y z. CPI r = Some w \<and> CPI_YoY r = Some x \<and> Unemployment r = Some y \<and> Real10Y r = Some z"
  by (auto simp: dropna_any_def any_missing_def)

text \<open>
  C4. The summary metrics come from the last row of \<^verbatim>\<open>panel.dropna()\<close>, the rows
  without a missing cell: when there is such a row the KPI row is the three cards for
  its CPI_YoY, Unemployment and Real10Y, each the value in the format
  \<^verbatim>\<open>,.2f\<close> followed by \<^verbatim>\<open>" %"\<close>; in a panel in ascending order that row is
  the latest row without a missing cell. When there is no such row the KPI row is
  the one info message. A card shows \<^verbatim>\<open>"-"\<close> for a missing value and the formatted
  value with its suffix otherwise; the format ends in a point and two digits, of the
  value rounded to the nearest hundredth.
\<close>

theorem summary_metrics:
  "(dropna_any p = [] \<longrightarrow> kpi_row p = [St_info ''No data available yet for the selected period.''])
   \<and> (dropna_any p \<noteq> [] \<longrightarrow>
        (\<exists>yoy u y. CPI_YoY (last (dropna_any p)) = Some yoy
            \<and> Unemployment (last (dropna_any p)) = Some u
            \<and> Real10Y (last (dropna_any p)) = Some y
            \<and> kpi_row p = [St_metric ''CPI YoY'' (fmt2 yoy @ '' %''),
                           St_metric ''Unemployment'' (fmt2 u @ '' %''),
                           St_metric ''Real 10Y Yield'' (fmt2 y @ '' %'')]))
   \<and> (\<forall>r\<in>set p. sorted (map key p) \<and> \<not> any_missing r \<longrightarrow>
          last (dropna_any p) \<in> set p \<and> \<not> any_missing (last (dropna_any p))
          \<and> key r \<le> key (last (dropna_any p)))
   \<and> metric_card label None suffix = St_metric label ''-''
   \<and> metric_card label (Some x) suffix = St_metric label (fmt2 x @ suffix)
   \<and> (\<exists>ip a b. fmt2 x = ip @ ''.'' @ [a, b] \<and> a \<in> set ''0123456789'' \<and> b \<in> set ''0123456789'')
   \<and> \<bar>\<bar>x\<bar> * 100 - of_int (round_half_even (\<bar>x\<bar> * 100))\<bar> \<le> 1 / 2"
proof -
  have a: "dropna_any p = [] \<longrightarrow> kpi_row p = [St_info ''No data available yet for the selected period.'']"
    by (simp add: kpi_row_def)
  have b: "dropna_any p \<noteq> [] \<longrightarrow>
        (\<exists>yoy u y. CPI_YoY (last (dropna_any p)) = Some yoy
            \<and> Unemployment (last (dropna_any p)) = Some u
            \<and> Real10Y (last (dropna_any p)) = Some y
            \<and> kpi_row p = [St_metric ''CPI YoY'' (fmt2 yoy @ '' %''),
                           St_metric ''Unemployment'' (fmt2 u @ '' %''),
                           St_metric ''Real 10Y Yield'' (fmt2 y @ '' %'')])"
  proof
    assume ne: "dropna_any p \<noteq> []"
    then have "last (dropna_any p) \<in> set (dropna_any p)" by (rule last_in_set)
    from dropna_any_complete [OF this] obtain w yoy u y where
      c: "CPI_YoY (last (dropna_any p)) = Some yoy" "Unemployment (last (dropna_any p)) = Some u"
         "Real10Y (last (dropna_any p)) = Some y" by blast
    with ne have "kpi_row p = [St_metric ''CPI YoY'' (fmt2 yoy @ '' %''),
                           St_metric ''Unemployment'' (fmt2 u @ '' %''),
                           St_metric ''Real 10Y Yield'' (fmt2 y @ '' %'')]"
      by (simp add: kpi_row_def Let_def metric_card_def)
    with c show "\<exists>yoy u y. CPI_YoY (last (dropna_any p)) = Some yoy
            \<and> Unemployment (last (dropna_any p)) = Some u
            \<and> Real10Y (last (dropna_any p)) = Some y
            \<and> kpi_row p = [St_metric ''CPI YoY'' (fmt2 yoy @ '' %''),
                           St_metric ''Unemployment'' (fmt2 u @ '' %''),
                           St_metric ''Real 10Y Yield'' (fmt2 y @ '' %'')]" by blast
  qed
  have c: "\<forall>r\<in>set p. sorted (map key p) \<and> \<not> any_missing r \<longrightarrow>
          last (dropna_any p) \<in> set p \<and> \<not> any_missing (last (dropna_any p))
          \<and> key r \<le> key (last (dropna_any p))"
  proof (intro ballI impI)
    fix r assume r: "r \<in> set p" and h: "sorted (map key p) \<and> \<not> any_missing r"
    then have rin: "r \<in> set (dropna_any p)" by (simp add: dropna_any_def)
    then have "dropna_any p \<noteq> []" by auto
    then have l: "last (dropna_any p) \<in> set (dropna_any p)" by (rule last_in_set)
    have "sorted (map key (dropna_any p))"
      using h unfolding dropna_any_def by (simp add: sorted_filter)
    from sorted_key_le_last [OF this rin] l
    show "last (dropna_any p) \<in> set p \<and> \<not> any_missing (last (dropna_any p))
          \<and> key r \<le> key (last (dropna_any p))"
      by (simp add: dropna_any_def)
  qed
  have d: "metric_card label None suffix = St_metric label ''-''"
    by (simp add: metric_card_def)
  have e: "metric_card label (Some x) suffix = St_metric label (fmt2 x @ suffix)"
    by (simp add: metric_card_def)
  from a b c d e fmt2_shape [of x] round_half_even_near [of "\<bar>x\<bar> * 100"] show ?thesis
    by (intro conjI)
qed


lemma fmt2_ex1: "fmt2 (16 / 5) = ''3.20''"
  by (simp add: fmt2_def round_half_even_def digit_char_def Let_def)

lemma fmt2_ex2: "fmt2 (41 / 10) = ''4.10''"
  by (simp add: fmt2_def round_half_even_def digit_char_def Let_def)

lemma fmt2_ex3: "fmt2 (1234567 / 1000) = ''1,234.57''"
  by (simp add: fmt2_def round_half_even_def digit_char_def Let_def)

theorem summary_metrics_witness:
  "kpi_row [\<lparr>key = (2024, 1, 31), CPI = Some 300, CPI_YoY = Some (16 / 5), Unemployment = Some (41 / 10), Real10Y = Some (1234567 / 1000)\<rparr>,
            \<lparr>key = (2024, 2, 29), CPI = Some 301, CPI_YoY = None, Unemployment = Some 4, Real10Y = Some 2\<rparr>]
     = [St_metric ''CPI YoY'' ''3.20 %'', St_metric ''Unemployment'' ''4.10 %'',
        St_metric ''Real 10Y Yield'' ''1,234.57 %'']"
proof -
  let ?p = "[\<lparr>key = (2024, 1, 31), CPI = Some 300, CPI_YoY = Some (16 / 5), Unemployment = Some (41 / 10), Real10Y = Some (1234567 / 1000)\<rparr>,
            \<lparr>key = (2024, 2, 29), CPI = Some 301, CPI_YoY = None, Unemployment = Some 4, Real10Y = Some 2\<rparr>]"
  have l: "dropna_any ?p = [\<lparr>key = (2024, 1, 31), CPI = Some 300, CPI_YoY = Some (16 / 5), Unemployment = Some (41 / 10), Real10Y = Some (1234567 / 1000)\<rparr>]"
    by (simp add: dropna_any_def any_missing_def del: not_None_eq)
  have ne: "dropna_any ?p \<noteq> []" unfolding l by simp
  from summary_metrics [of ?p] have "dropna_any ?p \<noteq> [] \<longrightarrow>
        (\<exists>yoy u y. CPI_YoY (last (dropna_any ?p)) = Some yoy
            \<and> Unemployment (last (dropna_any ?p)) = Some u
            \<and> Real10Y (last (dropna_any ?p)) = Some y
            \<and> kpi_row ?p = [St_metric ''CPI YoY'' (fmt2 yoy @ '' %''),
                           St_metric ''Unemployment'' (fmt2 u @ '' %''),
                           St_metric ''Real 10Y Yield'' (fmt2 y @ '' %'')])"
    by (rule conjunct2 [THEN conjunct1])
  from this [rule_format, OF ne] obtain yoy u y where
    c1: "CPI_YoY (last (dropna_any ?p)) = Some yoy"
    and c2: "Unemployment (last (dropna_any ?p)) = Some u"
    and c3: "Real10Y (last (dropna_any ?p)) = Some y"
    and k: "kpi_row ?p = [St_metric ''CPI YoY'' (fmt2 yoy @ '' %''),
                           St_metric ''Unemployment'' (fmt2 u @ '' %''),
                           St_metric ''Real 10Y Yield'' (fmt2 y @ '' %'')]"
    by (elim exE conjE)
  from c1 have "Some (16 / 5) = Some yoy" unfolding l by simp
  then have y1: "yoy = 16 / 5" by (simp only: option.inject)
  from c2 have "Some (41 / 10) = Some u" unfolding l by simp
  then have y2: "u = 41 / 10" by (simp only: option.inject)
  from c3 have "Some (1234567 / 1000) = Some y" unfolding l by simp
  then have y3: "y = 1234567 / 1000" by (simp only: option.inject)
  from k show ?thesis unfolding y1 y2 y3 fmt2_ex1 fmt2_ex2 fmt2_ex3 by simp
qed

section \<open>Months\<close>

lemma month_ix_month_end: "month_ix (month_end k) = k"
  by (simp add: month_ix_def month_end_def)

lemma is_month_end_month_end: "is_month_end (month_end k)"
proof -
  have "k mod 12 < 12" by simp
  then have "nat (k mod 12) < 12" by linarith
  then show ?thesis by (simp add: is_month_end_def month_end_def)
qed

lemma month_end_month_ix:
  "1 \<le> m \<Longrightarrow> m \<le> 12 \<Longrightarrow> month_end (month_ix (y, m, d)) = (y, m, days_in_month y m)"
proof -
  assume m: "1 \<le> m" "m \<le> 12"
  define j where "j = int m - 1"
  have j: "0 \<le> j" "j < 12" using m by (simp_all add: j_def)
  have e: "y * 12 + int m - 1 = j + y * 12" by (simp add: j_def)
  have dv: "(j + y * 12) div 12 = y" using j by simp
  have md: "j mod 12 = j" using j by simp
  have "nat j + 1 = m" using m by (simp add: j_def)
  then show ?thesis
    by (simp add: month_ix_def month_end_def e dv md del: One_nat_def)
qed

lemma inj_month_end: "inj month_end"
  by (rule inj_on_inverseI [where g = month_ix]) (rule month_ix_month_end)

section \<open>Resampling\<close>

lemma month_bins_sort: "month_bins (sort_key fst df) = month_bins df"
proof -
  have "(sort_key fst df = []) = (df = [])"
    by (metis length_0_conv length_sort)
  then show ?thesis by (simp add: month_bins_def)
qed

lemma month_in_bins: "r \<in> set df \<Longrightarrow> month_ix (fst r) \<in> set (month_bins df)"
proof -
  assume r: "r \<in> set df"
  then have ne: "df \<noteq> []" by auto
  let ?A = "set (map (month_ix \<circ> fst) df)"
  have m: "month_ix (fst r) \<in> ?A" using r by auto
  have "Min ?A \<le> month_ix (fst r)" "month_ix (fst r) \<le> Max ?A"
    using m by (simp_all del: set_map)
  with ne show ?thesis by (simp add: month_bins_def)
qed

lemma distinct_month_bins: "distinct (month_bins df)"
  by (simp add: month_bins_def)

lemma keys_resample: "map fst (resample agg df) = map month_end (month_bins df)"
  by (simp add: resample_def Let_def month_bins_sort comp_def)

lemma filter_eq_single: "distinct ks \<Longrightarrow> k \<in> set ks \<Longrightarrow> filter (\<lambda>j. j = k) ks = [k]"
proof (induction ks)
  case Nil
  then show ?case by simp
next
  case (Cons a ks)
  show ?case
  proof (cases "a = k")
    case True
    with Cons.prems have "k \<notin> set ks" by simp
    then have "filter (\<lambda>j. j = k) ks = []" by (auto simp: filter_empty_conv)
    with True show ?thesis by simp
  next
    case False
    with Cons show ?thesis by simp
  qed
qed

lemma resample_month:
  "k \<in> set (month_bins df) \<Longrightarrow>
   filter (\<lambda>r. month_ix (fst r) = k) (resample agg df)
     = [(month_end k, agg (in_month k (sort_key fst df)))]"
proof -
  assume k: "k \<in> set (month_bins df)"
  have "filter (\<lambda>r. month_ix (fst r) = k) (resample agg df)
      = map (\<lambda>j. (month_end j, agg (in_month j (sort_key fst df)))) (filter (\<lambda>j. j = k) (month_bins df))"
    by (simp add: resample_def Let_def month_bins_sort filter_map comp_def month_ix_month_end)
  also have "filter (\<lambda>j. j = k) (month_bins df) = [k]"
    using distinct_month_bins k by (rule filter_eq_single)
  finally show ?thesis by simp
qed

lemma present_filter: "present vs = map the (filter (\<lambda>v. v \<noteq> None) vs)"
  by (induction vs) (auto simp: present_def)

lemma agg_last_eq:
  "agg_last vs = (if filter (\<lambda>v. v \<noteq> None) vs = [] then None else last (filter (\<lambda>v. v \<noteq> None) vs))"
proof (cases "filter (\<lambda>v. v \<noteq> None) vs = []")
  case True
  then show ?thesis by (simp add: agg_last_def present_filter)
next
  case False
  then have "last (filter (\<lambda>v. v \<noteq> None) vs) \<in> set (filter (\<lambda>v. v \<noteq> None) vs)"
    by (rule last_in_set)
  then obtain x where x: "last (filter (\<lambda>v. v \<noteq> None) vs) = Some x" by auto
  have "present vs \<noteq> []" using False by (simp add: present_filter)
  then obtain y ys where p: "present vs = y # ys" by (cases "present vs") auto
  have "last (present vs) = the (last (filter (\<lambda>v. v \<noteq> None) vs))"
    using False by (simp add: present_filter last_map)
  with p x False show ?thesis by (simp add: agg_last_def)
qed

text \<open>
  C5, as amended. For a series in ascending order and any of its observations, the
  output of the Frequency Normalizer in mode \<^verbatim>\<open>last\<close> has exactly one row in the
  calendar month of that observation; the row is labelled with the last day of that
  month and holds the last value of the month that is not missing, and is missing only
  when every observation of the month is missing. The output has no duplicate dates.
\<close>

theorem monthly_last:
  assumes "sorted (map fst df)" and "(d, v) \<in> set df"
  shows "filter (\<lambda>r. month_ix (fst r) = month_ix d) (monthlyize df ''last'')
           = [(month_end (month_ix d), agg_last (in_month (month_ix d) df))]
     \<and> agg_last (in_month (month_ix d) df)
           = (if filter (\<lambda>v. v \<noteq> None) (in_month (month_ix d) df) = [] then None
              else last (filter (\<lambda>v. v \<noteq> None) (in_month (month_ix d) df)))
     \<and> is_month_end (month_end (month_ix d))
     \<and> (valid_date d \<longrightarrow> month_end (month_ix d) = (fst d, fst (snd d), days_in_month (fst d) (fst (snd d))))
     \<and> distinct (map fst (monthlyize df ''last''))"
proof -
  from assms(2) have ne: "df \<noteq> []" by auto
  have s: "sort_key fst df = df" using assms(1) by (rule sort_key_id_if_sorted)
  have k: "month_ix d \<in> set (month_bins df)"
    using month_in_bins [OF assms(2)] by simp
  have a: "filter (\<lambda>r. month_ix (fst r) = month_ix d) (monthlyize df ''last'')
           = [(month_end (month_ix d), agg_last (in_month (month_ix d) df))]"
    using ne resample_month [OF k, of agg_last] by (simp add: monthlyize_def s)
  have c: "valid_date d \<longrightarrow> month_end (month_ix d) = (fst d, fst (snd d), days_in_month (fst d) (fst (snd d)))"
    by (cases d) (auto simp: valid_date_def month_end_month_ix)
  have "inj_on month_end (set (month_bins df))"
    using inj_month_end by (rule inj_on_subset) simp
  then have "distinct (map month_end (month_bins df))"
    using distinct_month_bins by (simp add: distinct_map)
  then have e: "distinct (map fst (monthlyize df ''last''))"
    by (simp add: monthlyize_def keys_resample)
  from a agg_last_eq [of "in_month (month_ix d) df"] is_month_end_month_end [of "month_ix d"] c e
  show ?thesis by (intro conjI)
qed

lemma ex_monthlyize:
  "monthlyize [((2000, 1, 10), Some 1), ((2000, 1, 20), None)] ''last'' = [((2000, 1, 31), Some 1)]"
  by (simp add: monthlyize_def resample_def month_bins_def in_month_def month_ix_def month_end_def
      agg_last_def present_def days_in_month_def is_leap_def)

text \<open>
  C5 as stated fails: in January 2000 the last observation (the 20th) is missing, and
  the monthly value is 1, the value of the 10th.
\<close>

theorem monthly_last_counterexample:
  "monthlyize [((2000, 1, 10), Some 1), ((2000, 1, 20), None)] ''last'' = [((2000, 1, 31), Some 1)]
   \<and> month_ix (2000, 1, 20) = month_ix (2000, 1, 31)
   \<and> last [((2000 :: int, 1 :: nat, 10 :: nat), Some (1 :: real)), ((2000, 1, 20), None)] = ((2000, 1, 20), None)
   \<and> snd (hd (monthlyize [((2000, 1, 10), Some 1), ((2000, 1, 20), None)] ''last''))
       \<noteq> snd (last [((2000 :: int, 1 :: nat, 10 :: nat), Some (1 :: real)), ((2000, 1, 20), None)])"
  unfolding ex_monthlyize by (simp add: month_ix_def)

theorem monthly_last_witness:
  "sorted (map fst [((2000 :: int, 1 :: nat, 10 :: nat), Some (1 :: real)), ((2000, 1, 20), None), ((2000, 3, 5), Some 4)])
   \<and> ((2000, 1, 20), None) \<in> set [((2000 :: int, 1 :: nat, 10 :: nat), Some (1 :: real)), ((2000, 1, 20), None), ((2000, 3, 5), Some 4)]
   \<and> filter (\<lambda>r. month_ix (fst r) = month_ix (2000, 1, 20))
        (monthlyize [((2000, 1, 10), Some 1), ((2000, 1, 20), None), ((2000, 3, 5), Some 4)] ''last'')
       = [((2000, 1, 31), Some 1)]"
proof -
  let ?df = "[((2000 :: int, 1 :: nat, 10 :: nat), Some (1 :: real)), ((2000, 1, 20), None), ((2000, 3, 5), Some 4)]"
  have h1: "sorted (map fst ?df)" by simp
  have h2: "((2000, 1, 20), None) \<in> set ?df" by simp
  have m: "month_end (month_ix (2000, 1, 20)) = (2000, 1, 31)"
    by (simp add: month_ix_def month_end_def days_in_month_def is_leap_def)
  have g: "agg_last (in_month (month_ix (2000, 1, 20)) ?df) = Some 1"
    by (simp add: in_month_def month_ix_def agg_last_def present_def)
  from monthly_last [OF h1 h2] have
    "filter (\<lambda>r. month_ix (fst r) = month_ix (2000, 1, 20)) (monthlyize ?df ''last'')
       = [(month_end (month_ix (2000, 1, 20)), agg_last (in_month (month_ix (2000, 1, 20)) ?df))]"
    by (rule conjunct1)
  then have "filter (\<lambda>r. month_ix (fst r) = month_ix (2000, 1, 20)) (monthlyize ?df ''last'')
       = [((2000, 1, 31), Some 1)]"
    by (simp only: m g)
  with h1 h2 show ?thesis by (intro conjI)
qed

section \<open>Year-over-year change\<close>

lemma length_ffill_from: "length (ffill_from p vs) = length vs"
  by (induction p vs rule: ffill_from.induct) simp_all

lemma length_ffill: "length (ffill vs) = length vs"
  by (simp add: ffill_def length_ffill_from)

lemma ffill_from_nth:
  "i < length vs \<Longrightarrow>
   ffill_from p vs ! i =
     (case vs ! i of Some x \<Rightarrow> Some x | None \<Rightarrow> if i = 0 then p else ffill_from p vs ! (i - 1))"
proof (induction p vs arbitrary: i rule: ffill_from.induct)
  case (1 prev)
  then show ?case by simp
next
  case (2 prev vs)
  show ?case
  proof (cases i)
    case 0
    then show ?thesis by simp
  next
    case (Suc j)
    with "2.prems" have j: "j < length vs" by simp
    show ?thesis
    proof (cases j)
      case 0
      with Suc j "2.IH" [of 0] show ?thesis by (simp split: option.splits)
    next
      case (Suc n)
      with \<open>i = Suc j\<close> j "2.IH" [of j] show ?thesis by (simp split: option.splits)
    qed
  qed
next
  case (3 prev x vs)
  show ?case
  proof (cases i)
    case 0
    then show ?thesis by simp
  next
    case (Suc j)
    with "3.prems" have j: "j < length vs" by simp
    show ?thesis
    proof (cases j)
      case 0
      with Suc j "3.IH" [of 0] show ?thesis by (simp split: option.splits)
    next
      case (Suc n)
      with \<open>i = Suc j\<close> j "3.IH" [of j] show ?thesis by (simp split: option.splits)
    qed
  qed
qed

lemma ffill_nth:
  "i < length vs \<Longrightarrow>
   ffill vs ! i = (case vs ! i of Some x \<Rightarrow> Some x | None \<Rightarrow> if i = 0 then None else ffill vs ! (i - 1))"
  unfolding ffill_def by (rule ffill_from_nth)

lemma length_shift: "length (shift n vs) = length vs"
  by (simp add: shift_def)

lemma shift_nth: "i < length vs \<Longrightarrow> shift n vs ! i = (if i < n then None else vs ! (i - n))"
  by (auto simp: shift_def nth_append)

lemma length_pct_change: "length (pct_change n vs) = length vs"
  by (simp add: pct_change_def Let_def length_ffill length_shift)

lemma pct_change_nth:
  "i < length vs \<Longrightarrow>
   pct_change n vs ! i =
     (if i < n then None else cell_sub (cell_div (ffill vs ! i) (ffill vs ! (i - n))) 1)"
  by (simp add: pct_change_def Let_def length_ffill length_shift shift_nth)

lemma month_steps_nth:
  "month_steps ks = (\<forall>i. Suc i < length ks \<longrightarrow> ks ! Suc i = ks ! i + 1)"
proof (induction ks rule: month_steps.induct)
  case (1 a b ks)
  show ?case
  proof
    assume h: "month_steps (a # b # ks)"
    show "\<forall>i. Suc i < length (a # b # ks) \<longrightarrow> (a # b # ks) ! Suc i = (a # b # ks) ! i + 1"
    proof (intro allI impI)
      fix i assume "Suc i < length (a # b # ks)"
      with h 1 show "(a # b # ks) ! Suc i = (a # b # ks) ! i + 1"
        by (cases i) auto
    qed
  next
    assume h: "\<forall>i. Suc i < length (a # b # ks) \<longrightarrow> (a # b # ks) ! Suc i = (a # b # ks) ! i + 1"
    from h [rule_format, of 0] have ab: "b = a + 1" by simp
    have "\<forall>i. Suc i < length (b # ks) \<longrightarrow> (b # ks) ! Suc i = (b # ks) ! i + 1"
    proof (intro allI impI)
      fix i assume "Suc i < length (b # ks)"
      with h [rule_format, of "Suc i"] show "(b # ks) ! Suc i = (b # ks) ! i + 1" by simp
    qed
    with 1 ab show "month_steps (a # b # ks)" by simp
  qed
qed simp_all

lemma infer_freq_monthly:
  assumes "3 \<le> length ix" and "ix = map (\<lambda>i. month_end (k + int i)) [0..<length ix]"
  shows "infer_freq ix = Inr Freq_M"
proof -
  have n: "\<And>i. i < length ix \<Longrightarrow> ix ! i = month_end (k + int i)"
  proof -
    fix i assume i: "i < length ix"
    have "ix ! i = map (\<lambda>i. month_end (k + int i)) [0..<length ix] ! i" using assms(2) by simp
    also have "\<dots> = month_end (k + int i)" using i by simp
    finally show "ix ! i = month_end (k + int i)" .
  qed
  have "month_steps (map month_ix ix)"
    unfolding month_steps_nth by (simp add: n month_ix_month_end)
  moreover have "list_all is_month_end ix"
    unfolding list_all_length by (simp add: n is_month_end_month_end)
  ultimately show ?thesis using assms(1) by (simp add: infer_freq_def)
qed

lemma cpi_yoy_monthly:
  assumes "3 \<le> length S" and "map fst S = map (\<lambda>i. month_end (k + int i)) [0..<length S]"
  shows "cpi_yoy_from_index S
           = Inr (zip (map fst S) (map (\<lambda>v. cell_mul v 100) (pct_change 12 (map snd S))))"
proof -
  from assms(1) have ne: "S \<noteq> []" by auto
  have "infer_freq (map fst S) = Inr Freq_M"
    by (rule infer_freq_monthly [where k = k]) (use assms in simp_all)
  with ne show ?thesis by (simp add: cpi_yoy_from_index_def)
qed

lemma yoy_short_series_raises:
  "cpi_yoy_from_index [((2000, 1, 31), Some 100), ((2000, 2, 29), Some 101)] = Inl ValueError"
  by (simp add: cpi_yoy_from_index_def infer_freq_def)

text \<open>
  C1, as amended. For a Monthly Series \<open>S\<close> (consecutive month ends) with at least
  three observations the Derived Metric Calculator returns a series on the dates of
  \<open>S\<close> whose first 12 values are missing. For \<open>i \<ge> 12\<close> the value is
  \<open>(F[i] / F[i - 12] - 1) * 100\<close>, where \<open>F\<close> is \<open>S\<close> with every missing value
  replaced by the last present value before it (the comparator being nonzero); it is
  missing when \<open>F[i]\<close> or \<open>F[i - 12]\<close> is missing, that is when \<open>S\<close> has no
  present value at or before that row. \<open>F\<close> agrees with \<open>S\<close> wherever \<open>S\<close> is
  present, so the value is \<open>(S[i] / S[i - 12] - 1) * 100\<close> when both are present.
\<close>

theorem yoy_monthly:
  assumes "3 \<le> length S" and "map fst S = map (\<lambda>i. month_end (k + int i)) [0..<length S]"
  shows "\<exists>out. cpi_yoy_from_index S = Inr out \<and> map fst out = map fst S
     \<and> (\<forall>i<length S. i < 12 \<longrightarrow> snd (out ! i) = None)
     \<and> (\<forall>i<length S. \<forall>a b. 12 \<le> i \<and> ffill (map snd S) ! i = Some a
            \<and> ffill (map snd S) ! (i - 12) = Some b \<and> b \<noteq> 0
          \<longrightarrow> snd (out ! i) = Some ((a / b - 1) * 100))
     \<and> (\<forall>i<length S. 12 \<le> i \<and> (ffill (map snd S) ! i = None \<or> ffill (map snd S) ! (i - 12) = None)
          \<longrightarrow> snd (out ! i) = None)
     \<and> (\<forall>i<length S. ffill (map snd S) ! i =
          (case snd (S ! i) of Some x \<Rightarrow> Some x
           | None \<Rightarrow> if i = 0 then None else ffill (map snd S) ! (i - 1)))
     \<and> (\<forall>i<length S. \<forall>a b. 12 \<le> i \<and> snd (S ! i) = Some a \<and> snd (S ! (i - 12)) = Some b \<and> b \<noteq> 0
          \<longrightarrow> snd (out ! i) = Some ((a / b - 1) * 100))"
proof -
  let ?out = "zip (map fst S) (map (\<lambda>v. cell_mul v 100) (pct_change 12 (map snd S)))"
  have r: "cpi_yoy_from_index S = Inr ?out" using assms by (rule cpi_yoy_monthly)
  have k: "map fst ?out = map fst S" by (simp add: length_pct_change)
  have v: "\<And>i. i < length S \<Longrightarrow> snd (?out ! i) = cell_mul (pct_change 12 (map snd S) ! i) 100"
    by (simp add: length_pct_change)
  have a: "\<forall>i<length S. i < 12 \<longrightarrow> snd (?out ! i) = None"
    by (simp add: v pct_change_nth)
  have b: "\<forall>i<length S. \<forall>a b. 12 \<le> i \<and> ffill (map snd S) ! i = Some a
            \<and> ffill (map snd S) ! (i - 12) = Some b \<and> b \<noteq> 0
          \<longrightarrow> snd (?out ! i) = Some ((a / b - 1) * 100)"
    by (simp add: v pct_change_nth)
  have c: "\<forall>i<length S. 12 \<le> i \<and> (ffill (map snd S) ! i = None \<or> ffill (map snd S) ! (i - 12) = None)
          \<longrightarrow> snd (?out ! i) = None"
    by (auto simp: v pct_change_nth)
  have d: "\<forall>i<length S. ffill (map snd S) ! i =
          (case snd (S ! i) of Some x \<Rightarrow> Some x
           | None \<Rightarrow> if i = 0 then None else ffill (map snd S) ! (i - 1))"
  proof (intro allI impI)
    fix i assume i: "i < length S"
    then have "i < length (map snd S)" by simp
    from ffill_nth [OF this] i show "ffill (map snd S) ! i =
          (case snd (S ! i) of Some x \<Rightarrow> Some x
           | None \<Rightarrow> if i = 0 then None else ffill (map snd S) ! (i - 1))" by simp
  qed
  have e: "\<forall>i<length S. \<forall>a b. 12 \<le> i \<and> snd (S ! i) = Some a \<and> snd (S ! (i - 12)) = Some b \<and> b \<noteq> 0
          \<longrightarrow> snd (?out ! i) = Some ((a / b - 1) * 100)"
  proof (intro allI impI)
    fix i a b
    assume i: "i < length S"
      and h: "12 \<le> i \<and> snd (S ! i) = Some a \<and> snd (S ! (i - 12)) = Some b \<and> b \<noteq> 0"
    from i have j: "i - 12 < length S" by simp
    from d i h have fa: "ffill (map snd S) ! i = Some a" by simp
    from d j h have fb: "ffill (map snd S) ! (i - 12) = Some b" by simp
    from b i h fa fb show "snd (?out ! i) = Some ((a / b - 1) * 100)" by blast
  qed
  from r k a b c d e show ?thesis by blast
qed


lemma upt_13: "[0..<13] = [0, 1, 2, 3, 4, 5, 6, 7, 8, 9, 10, 11, 12]"
  by (simp add: upt_rec)

text \<open>
  C1 as stated fails: the value of January 2001 is missing in the input, and the
  output of that month is 11, computed from the value 111 of December 2000 and the
  value 100 of January 2000.
\<close>

theorem yoy_monthly_counterexample:
  "cpi_yoy_from_index
     [((2000, 1, 31), Some 100), ((2000, 2, 29), Some 101),
      ((2000, 3, 31), Some 102), ((2000, 4, 30), Some 103),
      ((2000, 5, 31), Some 104), ((2000, 6, 30), Some 105),
      ((2000, 7, 31), Some 106), ((2000, 8, 31), Some 107),
      ((2000, 9, 30), Some 108), ((2000, 10, 31), Some 109),
      ((2000, 11, 30), Some 110), ((2000, 12, 31), Some 111), ((2001, 1, 31), None)]
   = Inr
     [((2000, 1, 31), None), ((2000, 2, 29), None), ((2000, 3, 31), None),
      ((2000, 4, 30), None), ((2000, 5, 31), None), ((2000, 6, 30), None),
      ((2000, 7, 31), None), ((2000, 8, 31), None), ((2000, 9, 30), None),
      ((2000, 10, 31), None), ((2000, 11, 30), None), ((2000, 12, 31), None),
      ((2001, 1, 31), Some 11)]
   \<and> snd ([((2000 :: int, 1 :: nat, 31 :: nat), Some (100 :: real)),
         ((2000, 2, 29), Some 101), ((2000, 3, 31), Some 102),
         ((2000, 4, 30), Some 103), ((2000, 5, 31), Some 104),
         ((2000, 6, 30), Some 105), ((2000, 7, 31), Some 106),
         ((2000, 8, 31), Some 107), ((2000, 9, 30), Some 108),
         ((2000, 10, 31), Some 109), ((2000, 11, 30), Some 110),
         ((2000, 12, 31), Some 111), ((2001, 1, 31), None)] ! 12) = None"
  by (simp add: cpi_yoy_from_index_def infer_freq_def month_ix_def is_month_end_def
      days_in_month_def is_leap_def pct_change_def ffill_def shift_def)

theorem yoy_monthly_witness:
  "3 \<le> length
     [((2000 :: int, 1 :: nat, 31 :: nat), Some (100 :: real)),
      ((2000, 2, 29), Some 101), ((2000, 3, 31), Some 102),
      ((2000, 4, 30), Some 103), ((2000, 5, 31), Some 104),
      ((2000, 6, 30), Some 105), ((2000, 7, 31), Some 106),
      ((2000, 8, 31), Some 107), ((2000, 9, 30), Some 108),
      ((2000, 10, 31), Some 109), ((2000, 11, 30), Some 110),
      ((2000, 12, 31), Some 111), ((2001, 1, 31), Some 112)]
   \<and> map fst
     [((2000 :: int, 1 :: nat, 31 :: nat), Some (100 :: real)),
      ((2000, 2, 29), Some 101), ((2000, 3, 31), Some 102),
      ((2000, 4, 30), Some 103), ((2000, 5, 31), Some 104),
      ((2000, 6, 30), Some 105), ((2000, 7, 31), Some 106),
      ((2000, 8, 31), Some 107), ((2000, 9, 30), Some 108),
      ((2000, 10, 31), Some 109), ((2000, 11, 30), Some 110),
      ((2000, 12, 31), Some 111), ((2001, 1, 31), Some 112)]
     = map (\<lambda>i. month_end (24000 + int i)) [0..<13]
   \<and> (\<exists>out. cpi_yoy_from_index
     [((2000, 1, 31), Some 100), ((2000, 2, 29), Some 101),
      ((2000, 3, 31), Some 102), ((2000, 4, 30), Some 103),
      ((2000, 5, 31), Some 104), ((2000, 6, 30), Some 105),
      ((2000, 7, 31), Some 106), ((2000, 8, 31), Some 107),
      ((2000, 9, 30), Some 108), ((2000, 10, 31), Some 109),
      ((2000, 11, 30), Some 110), ((2000, 12, 31), Some 111),
      ((2001, 1, 31), Some 112)]
        = Inr out \<and> snd (out ! 5) = None \<and> snd (out ! 12) = Some 12)"
proof -
  let ?S = "[((2000 :: int, 1 :: nat, 31 :: nat), Some (100 :: real)),
             ((2000, 2, 29), Some 101), ((2000, 3, 31), Some 102),
             ((2000, 4, 30), Some 103), ((2000, 5, 31), Some 104),
             ((2000, 6, 30), Some 105), ((2000, 7, 31), Some 106),
             ((2000, 8, 31), Some 107), ((2000, 9, 30), Some 108),
             ((2000, 10, 31), Some 109), ((2000, 11, 30), Some 110),
             ((2000, 12, 31), Some 111), ((2001, 1, 31), Some 112)]"
  have h1: "3 \<le> length ?S" by simp
  have len: "length ?S = 13" by simp
  have h2': "map fst ?S = map (\<lambda>i. month_end (24000 + int i)) [0..<13]"
    by (simp add: upt_13 month_end_def days_in_month_def is_leap_def)
  have h2: "map fst ?S = map (\<lambda>i. month_end (24000 + int i)) [0..<length ?S]"
    unfolding len by (rule h2')
  have f12: "ffill (map snd ?S) ! 12 = Some 112" by (simp add: ffill_def)
  have f0: "ffill (map snd ?S) ! (12 - 12) = Some 100" by (simp add: ffill_def)
  from yoy_monthly [OF h1 h2] obtain out where
    o: "cpi_yoy_from_index ?S = Inr out"
    and a: "\<forall>i<length ?S. i < 12 \<longrightarrow> snd (out ! i) = None"
    and b: "\<forall>i<length ?S. \<forall>a b. 12 \<le> i \<and> ffill (map snd ?S) ! i = Some a
            \<and> ffill (map snd ?S) ! (i - 12) = Some b \<and> b \<noteq> 0
          \<longrightarrow> snd (out ! i) = Some ((a / b - 1) * 100)"
    by blast
  from a have a5: "snd (out ! 5) = None" by simp
  from b [rule_format, of 12 112 100] f12 f0 have "snd (out ! 12) = Some ((112 / 100 - 1) * 100)"
    by simp
  then have b12: "snd (out ! 12) = Some 12" by simp
  from h1 h2' o a5 b12 show ?thesis by blast
qed

section \<open>The calendar of the year-over-year series\<close>

lemma ex_fetch_cpi: "fetch_fred fred_example ''CPIAUCSL'' s = Inr cpi_example"
proof -
  have "sorted (map fst cpi_example)" by (simp add: cpi_example_def)
  then have "sort_key fst cpi_example = cpi_example" by (rule sort_key_id_if_sorted)
  then show ?thesis
    unfolding cpi_example_def
    by (simp add: fetch_fred_def fred_example_def valid_date_def days_in_month_def)
qed

lemma ex_fetch_unrate:
  "fetch_fred fred_example ''UNRATE'' s = Inr [((2001, 1, 1), Some (21 / 5))]"
  by (simp add: fetch_fred_def fred_example_def valid_date_def days_in_month_def)

lemma ex_fetch_real10:
  "fetch_fred fred_example ''DFII10'' s = Inr [((2001, 1, 2), Some 2), ((2001, 1, 3), Some 3)]"
  by (simp add: fetch_fred_def fred_example_def valid_date_def days_in_month_def)

lemma ex_yoy: "cpi_yoy_from_index cpi_example = Inr yoy_example"
  by (simp add: cpi_example_def yoy_example_def cpi_yoy_from_index_def infer_freq_def month_ix_def
      is_month_end_def is_month_start_def days_in_month_def is_leap_def pct_change_def ffill_def
      shift_def)

lemma ex_cpi_m: "monthlyize cpi_example ''last'' = cpi_m_example"
proof -
  have "sorted (map fst cpi_example)" by (simp add: cpi_example_def)
  then have s: "sort_key fst cpi_example = cpi_example" by (rule sort_key_id_if_sorted)
  have ne: "cpi_example \<noteq> []" by (simp add: cpi_example_def)
  have b: "month_bins cpi_example = [24000, 24001, 24002, 24003, 24004, 24005, 24006, 24007,
      24008, 24009, 24010, 24011, 24012]"
    by (simp add: month_bins_def cpi_example_def month_ix_def)
  have "resample agg_last cpi_example = cpi_m_example"
    unfolding resample_def s Let_def b
    by (simp add: cpi_example_def cpi_m_example_def in_month_def month_ix_def month_end_def
        agg_last_def present_def days_in_month_def is_leap_def)
  with ne show ?thesis by (simp add: monthlyize_def)
qed

lemma ex_unrate_m: "monthlyize [((2001, 1, 1), Some (21 / 5))] ''last'' = [((2001, 1, 31), Some (21 / 5))]"
  by (simp add: monthlyize_def resample_def month_bins_def in_month_def month_ix_def month_end_def
      agg_last_def present_def days_in_month_def is_leap_def)

lemma ex_real10_m:
  "monthlyize [((2001, 1, 2), Some 2), ((2001, 1, 3), Some 3)] ''mean'' = [((2001, 1, 31), Some (5 / 2))]"
  by (simp add: monthlyize_def resample_def month_bins_def in_month_def month_ix_def month_end_def
      agg_mean_def present_def days_in_month_def is_leap_def)

lemma ex_fetch_data:
  "fetch_data cfg fred_example =
     ([Http_get ''CPIAUCSL'' (start_date cfg), Http_get ''UNRATE'' (start_date cfg),
       Http_get ''DFII10'' (start_date cfg)],
      Inr \<lparr>cpi_m = cpi_m_example, cpi_yoy = yoy_example,
           unrate_m = [((2001, 1, 31), Some (21 / 5))],
           real10_m = [((2001, 1, 31), Some (5 / 2))]\<rparr>)"
  by (simp only: fetch_data_def ex_fetch_cpi ex_fetch_unrate ex_fetch_real10 ex_yoy ex_cpi_m
      ex_unrate_m ex_real10_m sum.case)

lemma ex_union:
  "union_index [cpi_m_example, yoy_example, [((2001, 1, 31), Some (21 / 5))], [((2001, 1, 31), Some (5 / 2))]]
   = [(2000, 1, 1), (2000, 1, 31), (2000, 2, 1), (2000, 2, 29),
      (2000, 3, 1), (2000, 3, 31), (2000, 4, 1), (2000, 4, 30),
      (2000, 5, 1), (2000, 5, 31), (2000, 6, 1), (2000, 6, 30),
      (2000, 7, 1), (2000, 7, 31), (2000, 8, 1), (2000, 8, 31),
      (2000, 9, 1), (2000, 9, 30), (2000, 10, 1), (2000, 10, 31),
      (2000, 11, 1), (2000, 11, 30), (2000, 12, 1), (2000, 12, 31),
      (2001, 1, 1), (2001, 1, 31)]"
  by (simp add: union_index4 union2_def cpi_m_example_def yoy_example_def)

lemma ex_panel:
  "build_panel cpi_m_example yoy_example [((2001, 1, 31), Some (21 / 5))] [((2001, 1, 31), Some (5 / 2))]
   = Inr panel_example"
proof -
  have d: "distinct (map fst cpi_m_example)" "distinct (map fst yoy_example)"
    by (simp_all add: cpi_m_example_def yoy_example_def)
  show ?thesis
    unfolding build_panel_def concat_cols_def ex_union
    using d
    by (simp add: lookup_def cpi_m_example_def yoy_example_def panel_example_def dropna_all_def
        all_missing_def)
qed


lemma ex_kpi: "kpi_row panel_example = [St_info ''No data available yet for the selected period.'']"
  by (simp add: kpi_row_def dropna_any_def any_missing_def panel_example_def)

lemma ex_app:
  "app \<lparr>api_key = ''key'', start_date = ''2000-01-01'', smooth_ma = False\<rparr> fred_example
     = [Http_get ''CPIAUCSL'' ''2000-01-01'', Http_get ''UNRATE'' ''2000-01-01'',
        Http_get ''DFII10'' ''2000-01-01'']
       @ render False \<lparr>cpi_m = cpi_m_example, cpi_yoy = yoy_example,
           unrate_m = [((2001, 1, 31), Some (21 / 5))],
           real10_m = [((2001, 1, 31), Some (5 / 2))]\<rparr> panel_example"
  by (simp add: app_def ex_fetch_data ex_panel del: One_nat_def)

text \<open>
  C2 on the code. The price index arrives dated on the first day of each month, so
  \<^verbatim>\<open>infer_freq\<close> answers \<^verbatim>\<open>"MS"\<close> and the year-over-year series keeps the
  month-start dates, while the three other columns are keyed on month ends. In the
  assembled panel January 2001 has two rows, 2001-01-01 holding only CPI_YoY and
  2001-01-31 holding the other three columns; the first is not a month-end date. No
  row is complete, and the run shows the info message in place of the summary metrics.
\<close>

theorem yoy_on_month_starts:
  "build_panel cpi_m_example yoy_example [((2001, 1, 31), Some (21 / 5))] [((2001, 1, 31), Some (5 / 2))]
     = Inr panel_example
   \<and> fst (fetch_data \<lparr>api_key = ''key'', start_date = ''2000-01-01'', smooth_ma = False\<rparr> fred_example)
     = [Http_get ''CPIAUCSL'' ''2000-01-01'', Http_get ''UNRATE'' ''2000-01-01'',
        Http_get ''DFII10'' ''2000-01-01'']
   \<and> snd (fetch_data \<lparr>api_key = ''key'', start_date = ''2000-01-01'', smooth_ma = False\<rparr> fred_example)
     = Inr \<lparr>cpi_m = cpi_m_example, cpi_yoy = yoy_example,
           unrate_m = [((2001, 1, 31), Some (21 / 5))],
           real10_m = [((2001, 1, 31), Some (5 / 2))]\<rparr>
   \<and> (2001, 1, 1) \<in> set (map key panel_example)
   \<and> (2001, 1, 31) \<in> set (map key panel_example)
   \<and> \<not> is_month_end (2001, 1, 1)
   \<and> month_ix (2001, 1, 1) = month_ix (2001, 1, 31)
   \<and> St_info ''No data available yet for the selected period.''
       \<in> set (app \<lparr>api_key = ''key'', start_date = ''2000-01-01'', smooth_ma = False\<rparr> fred_example)"
proof -
  have a: "(2001, 1, 1) \<in> set (map key panel_example)" "(2001, 1, 31) \<in> set (map key panel_example)"
    by (simp_all add: panel_example_def)
  have b: "\<not> is_month_end (2001, 1, 1)" "month_ix (2001, 1, 1) = month_ix (2001, 1, 31)"
    by (simp_all add: is_month_end_def month_ix_def days_in_month_def)
  have c: "St_info ''No data available yet for the selected period.''
       \<in> set (app \<lparr>api_key = ''key'', start_date = ''2000-01-01'', smooth_ma = False\<rparr> fred_example)"
    by (simp only: ex_app render_eq ex_kpi) simp
  have d: "fetch_data \<lparr>api_key = ''key'', start_date = ''2000-01-01'', smooth_ma = False\<rparr> fred_example
     = ([Http_get ''CPIAUCSL'' ''2000-01-01'', Http_get ''UNRATE'' ''2000-01-01'',
        Http_get ''DFII10'' ''2000-01-01''],
      Inr \<lparr>cpi_m = cpi_m_example, cpi_yoy = yoy_example,
           unrate_m = [((2001, 1, 31), Some (21 / 5))],
           real10_m = [((2001, 1, 31), Some (5 / 2))]\<rparr>)"
    by (simp only: ex_fetch_data config.simps)
  from ex_panel a b c show ?thesis
    by (simp only: d fst_conv snd_conv simp_thms)
qed

end
